(* ===== verification/Blog_Prelude.thy ===== *)
theory Blog_Prelude
  imports Main
begin

text \<open>
  Shared vocabulary of the development: the names of the model's basic types, the
  JavaScript built-ins the components call (here \<open>Array.prototype.filter\<close> with its
  index argument), the generic list facts the component proofs share, and the
  collection \<open>handler_defs\<close> into which each component puts the definitions of its
  event handlers, so that a proof about a handler is \<open>simp add: handler_defs\<close>.
\<close>

named_theorems handler_defs "definitions of the React event handlers of the model"

type_synonym blog_id = nat
type_synonym timestamp = nat

subsection \<open>\<open>Array.prototype.filter\<close> with the index argument\<close>

text \<open>
  \<open>xs.filter((x, i) => p(x, i))\<close> visits the elements left to right, passing each one's
  index. \<open>filter_idx_from p n xs\<close> is the loop from index \<open>n\<close> on.
\<close>

fun filter_idx_from :: "('a \<Rightarrow> nat \<Rightarrow> bool) \<Rightarrow> nat \<Rightarrow> 'a list \<Rightarrow> 'a list" where
  "filter_idx_from p n [] = []"
| "filter_idx_from p n (x # xs) =
     (if p x n then x # filter_idx_from p (Suc n) xs else filter_idx_from p (Suc n) xs)"

definition js_filter_idx :: "('a \<Rightarrow> nat \<Rightarrow> bool) \<Rightarrow> 'a list \<Rightarrow> 'a list" where
  "js_filter_idx p xs = filter_idx_from p 0 xs"

lemma filter_idx_from_past:
  "k < n \<Longrightarrow> filter_idx_from (\<lambda>_ i. i \<noteq> k) n xs = xs"
  by (induction xs arbitrary: n) auto

lemma filter_idx_from_drop_one:
  "n \<le> k \<Longrightarrow>
   filter_idx_from (\<lambda>_ i. i \<noteq> k) n xs = take (k - n) xs @ drop (Suc (k - n)) xs"
proof (induction xs arbitrary: n)
  case Nil
  then show ?case by simp
next
  case (Cons x xs)
  show ?case
  proof (cases "n = k")
    case True
    then show ?thesis by (simp add: filter_idx_from_past)
  next
    case False
    with Cons.prems have "Suc n \<le> k" by simp
    then have "filter_idx_from (\<lambda>_ i. i \<noteq> k) (Suc n) xs =
               take (k - Suc n) xs @ drop (Suc (k - Suc n)) xs"
      by (rule Cons.IH)
    moreover have "k - n = Suc (k - Suc n)" using \<open>Suc n \<le> k\<close> by simp
    ultimately show ?thesis using False by simp
  qed
qed

text \<open>Removing by index is \<open>take\<close> before it and \<open>drop\<close> after it; out of range it removes nothing.\<close>

lemma js_filter_idx_remove [simp]:
  "js_filter_idx (\<lambda>_ i. i \<noteq> k) xs = take k xs @ drop (Suc k) xs"
  by (simp add: js_filter_idx_def filter_idx_from_drop_one)

lemma js_filter_idx_remove_length:
  "length (js_filter_idx (\<lambda>_ i. i \<noteq> k) xs) = (if k < length xs then length xs - 1 else length xs)"
  by (simp add: min_def)

lemma js_filter_idx_remove_nth:
  "k < length xs \<Longrightarrow> j < length xs - 1 \<Longrightarrow>
   js_filter_idx (\<lambda>_ i. i \<noteq> k) xs ! j = (if j < k then xs ! j else xs ! Suc j)"
  by (simp add: nth_append min_def)

subsection \<open>Lists of options\<close>

lemma those_eq_Some: "those xs = Some ys \<longleftrightarrow> xs = map Some ys"
proof (induction xs arbitrary: ys)
  case Nil
  then show ?case by auto
next
  case (Cons x xs)
  then show ?case by (cases ys) (auto split: option.splits)
qed

subsection \<open>Removing the element at an index\<close>

definition remove_at :: "nat \<Rightarrow> 'a list \<Rightarrow> 'a list" where
  "remove_at k xs = take k xs @ drop (Suc k) xs"

lemma set_remove_at: "set (remove_at k xs) \<subseteq> set xs"
  by (auto simp: remove_at_def dest: in_set_takeD in_set_dropD)

lemma length_remove_at [simp]: "k < length xs \<Longrightarrow> length (remove_at k xs) = length xs - 1"
  by (simp add: remove_at_def)

lemma remove_at_single [simp]: "remove_at 0 [x] = []"
  by (simp add: remove_at_def)

text \<open>A weighted sum over a list changes by the weight of the replaced or removed element.\<close>

lemma sum_list_map_update:
  "k < length xs \<Longrightarrow> sum_list (map f (xs[k := y])) + f (xs ! k) = sum_list (map f xs) + (f y :: nat)"
  by (subst (2) id_take_nth_drop [of k xs]) (simp_all add: upd_conv_take_nth_drop)

lemma sum_list_map_remove_at:
  "k < length xs \<Longrightarrow> sum_list (map f (remove_at k xs)) + f (xs ! k) = (sum_list (map f xs) :: nat)"
  by (subst (2) id_take_nth_drop [of k xs]) (simp_all add: remove_at_def)

subsection \<open>Lists keyed by a unique identifier\<close>

text \<open>Filtering out a key removes it from the keys.\<close>

lemma key_not_in_filtered [simp]: "a \<notin> f ` {x \<in> A. f x \<noteq> a}"
  by auto

text \<open>With distinct keys, at most one element carries a given key.\<close>

lemma distinct_key_filter_le_1:
  "distinct (map f xs) \<Longrightarrow> length (filter (\<lambda>x. a = f x) xs) \<le> 1"
proof (induction xs)
  case Nil
  then show ?case by simp
next
  case (Cons x xs)
  show ?case
  proof (cases "f x = a")
    case True
    with Cons.prems have "\<forall>y \<in> set xs. a \<noteq> f y"
      by (auto simp: image_iff)
    then have "filter (\<lambda>y. a = f y) xs = []"
      by (simp add: filter_empty_conv)
    with True show ?thesis by simp
  next
    case False
    with Cons show ?thesis by simp
  qed
qed

end
