(* ===== verification/Blog_Data.thy ===== *)
theory Blog_Data
  imports Blog_Prelude
begin

text \<open>
  The data the three React components share: a content section (one
  heading/paragraph/image unit), the editable fields of a blog
  (\<open>{title, author, content}\<close>, the payload every form emits and the API accepts), and a
  stored post, which extends those fields with the server's \<open>_id\<close> and \<open>createdAt\<close>.
  A JavaScript object literal is a record; the computed-key updates
  \<open>{...s, [field]: value}\<close> and \<open>s[field] = value\<close> are functions of a field datatype.
\<close>

record content_section =
  heading :: string
  paragraph_text :: string
  imageUrl :: string

record blog_data =
  title :: string
  author :: string
  content :: "content_section list"

record post = blog_data +
  post_id :: blog_id
  createdAt :: timestamp

text \<open>The names a section input passes to \<open>handleContentChange\<close>, and the blog-level inputs' \<open>name\<close> attributes.\<close>

datatype section_field = Heading | Paragraph | ImageUrl

datatype blog_field = Title | Author

text \<open>\<open>{ heading: "", paragraph: "", imageUrl: "" }\<close>, appended by both "Add Section" buttons.\<close>

definition empty_section :: content_section where
  "empty_section = \<lparr>heading = '''', paragraph_text = '''', imageUrl = ''''\<rparr>"

text \<open>\<open>{ title: '', author: '', content: [] }\<close>: the list's initial edit buffer and the form's reset state.\<close>

definition empty_blog :: blog_data where
  "empty_blog = \<lparr>title = '''', author = '''', content = []\<rparr>"

text \<open>\<open>{ ...s, [field]: value }\<close> on a section.\<close>

fun set_section_field :: "section_field \<Rightarrow> string \<Rightarrow> content_section \<Rightarrow> content_section" where
  "set_section_field Heading v s = s\<lparr>heading := v\<rparr>"
| "set_section_field Paragraph v s = s\<lparr>paragraph_text := v\<rparr>"
| "set_section_field ImageUrl v s = s\<lparr>imageUrl := v\<rparr>"

text \<open>\<open>s[field]\<close>: reading a section field by name.\<close>

fun section_field_value :: "section_field \<Rightarrow> content_section \<Rightarrow> string" where
  "section_field_value Heading s = heading s"
| "section_field_value Paragraph s = paragraph_text s"
| "section_field_value ImageUrl s = imageUrl s"

text \<open>\<open>{ ...prev, [name]: value }\<close> on the blog-level fields.\<close>

fun set_blog_field :: "blog_field \<Rightarrow> string \<Rightarrow> blog_data \<Rightarrow> blog_data" where
  "set_blog_field Title v d = d\<lparr>title := v\<rparr>"
| "set_blog_field Author v d = d\<lparr>author := v\<rparr>"

text \<open>The editable part of a stored post: \<open>{ title: blog.title, author: blog.author, content: blog.content }\<close>.\<close>

definition post_fields :: "post \<Rightarrow> blog_data" where
  "post_fields b = \<lparr>title = title b, author = author b, content = content b\<rparr>"

text \<open>Concrete posts and payloads used by the witnesses of the components.\<close>

abbreviation sample_post_a :: post where
  "sample_post_a \<equiv> \<lparr>title = ''Dholera'', author = ''Ann'', content = [empty_section], post_id = 1, createdAt = 0\<rparr>"

abbreviation sample_post_b :: post where
  "sample_post_b \<equiv> \<lparr>title = ''Smart City'', author = ''Bo'', content = [], post_id = 2, createdAt = 5\<rparr>"

abbreviation sample_draft :: blog_data where
  "sample_draft \<equiv> \<lparr>title = ''Dholera'', author = ''Ann'', content = [empty_section\<lparr>paragraph_text := ''Plots''\<rparr>]\<rparr>"

subsection \<open>Field updates\<close>

lemma section_field_value_set_same [simp]:
  "section_field_value f (set_section_field f v s) = v"
  by (cases f) simp_all

lemma section_field_value_set_other [simp]:
  "g \<noteq> f \<Longrightarrow> section_field_value g (set_section_field f v s) = section_field_value g s"
  by (cases f; cases g) simp_all

lemma set_section_field_ext:
  "(\<forall>g. section_field_value g s = section_field_value g s') \<Longrightarrow> s = s'"
proof -
  assume h: "\<forall>g. section_field_value g s = section_field_value g s'"
  have "heading s = heading s'" "paragraph_text s = paragraph_text s'" "imageUrl s = imageUrl s'"
    using h[rule_format, of Heading] h[rule_format, of Paragraph] h[rule_format, of ImageUrl]
    by simp_all
  then show "s = s'" by simp
qed

lemma blog_data_eta [simp]: "\<lparr>title = title d, author = author d, content = content d\<rparr> = d"
  by simp

lemma set_blog_field_content [simp]: "content (set_blog_field f v d) = content d"
  by (cases f) simp_all

lemma post_fields_content [simp]: "content (post_fields b) = content b"
  by (simp add: post_fields_def)

lemma post_fields_title [simp]: "title (post_fields b) = title b"
  by (simp add: post_fields_def)

lemma post_fields_author [simp]: "author (post_fields b) = author b"
  by (simp add: post_fields_def)

end
