(* ===== verification/Blog_Api.thy ===== *)
theory Blog_Api
  imports Blog_Data
begin

text \<open>
  The REST interface between \<open>BlogManager.js\<close> and its backend. The requests are the
  four \<open>axios\<close> calls of the manager: \<open>GET /blogs\<close>, whose \<open>response.data\<close> is the
  post list, and the three mutations \<open>POST /blogs\<close>, \<open>PUT /blogs/{id}\<close> and
  \<open>DELETE /blogs/{id}\<close>, whose response data the code ignores. A request fails with
  a network error (no response, or a response lost on the way back) or with a non-2xx
  status; \<open>axios\<close> rejects in both cases, and the code's \<open>catch\<close> treats them alike.

  The server is not part of the repository; it is modelled from the spec's external
  interface (section 6) as a store of posts with server-assigned, never reused ids: a
  POST appends a post with the next id and the current time, a PUT replaces the
  title, author and content of an existing post (404 otherwise), a DELETE removes an
  existing post (404 otherwise), and GET returns the whole list.
\<close>

datatype request_error = NetworkError | NotFound

datatype mutation = PostBlog blog_data | PutBlog blog_id blog_data | DeleteBlog blog_id

record server =
  stored :: "post list"
  next_id :: blog_id
  clock :: timestamp

definition has_post :: "blog_id \<Rightarrow> post list \<Rightarrow> bool" where
  "has_post i ps = list_ex (\<lambda>p. post_id p = i) ps"

definition serve_get :: "server \<Rightarrow> request_error + post list" where
  "serve_get s = Inr (stored s)"

definition new_post :: "blog_data \<Rightarrow> server \<Rightarrow> post" where
  "new_post d s =
     \<lparr>title = title d, author = author d, content = content d, post_id = next_id s, createdAt = clock s\<rparr>"

definition replace_fields :: "blog_id \<Rightarrow> blog_data \<Rightarrow> post \<Rightarrow> post" where
  "replace_fields i d p =
     (if post_id p = i then p\<lparr>title := title d, author := author d, content := content d\<rparr> else p)"

fun serve_mutation :: "mutation \<Rightarrow> server \<Rightarrow> (request_error + unit) \<times> server" where
  "serve_mutation (PostBlog d) s =
     (Inr (), s\<lparr>stored := stored s @ [new_post d s], next_id := Suc (next_id s), clock := Suc (clock s)\<rparr>)"
| "serve_mutation (PutBlog i d) s =
     (if has_post i (stored s) then (Inr (), s\<lparr>stored := map (replace_fields i d) (stored s)\<rparr>)
      else (Inl NotFound, s))"
| "serve_mutation (DeleteBlog i) s =
     (if has_post i (stored s) then (Inr (), s\<lparr>stored := filter (\<lambda>p. post_id p \<noteq> i) (stored s)\<rparr>)
      else (Inl NotFound, s))"

text \<open>The server's own invariant: distinct ids, all below the next id it will assign.\<close>

definition server_inv :: "server \<Rightarrow> bool" where
  "server_inv s = (distinct (map post_id (stored s)) \<and> list_all (\<lambda>p. post_id p < next_id s) (stored s))"

subsection \<open>Lemmas\<close>

lemma has_post_iff [simp]: "has_post i ps \<longleftrightarrow> i \<in> post_id ` set ps"
  by (auto simp: has_post_def list_ex_iff)

lemma post_id_replace_fields [simp]: "post_id (replace_fields i d p) = post_id p"
  by (simp add: replace_fields_def)

lemma map_replace_fields_ids [simp]: "map post_id (map (replace_fields i d) ps) = map post_id ps"
  by (induction ps) simp_all

lemma image_replace_fields_ids [simp]: "post_id ` replace_fields i d ` A = post_id ` A"
  by (simp add: image_image)

lemma post_id_new_post [simp]: "post_id (new_post d s) = next_id s"
  by (simp add: new_post_def)

lemma post_fields_new_post [simp]: "post_fields (new_post d s) = d"
  by (simp add: new_post_def post_fields_def)

lemma serve_mutation_inv:
  "serve_mutation r s = (res, s') \<Longrightarrow> server_inv s \<Longrightarrow> server_inv s'"
proof (cases r)
  case (PostBlog d)
  moreover assume "serve_mutation r s = (res, s')" and inv: "server_inv s"
  moreover have "next_id s \<notin> post_id ` set (stored s)"
    using inv by (auto simp: server_inv_def list_all_iff)
  ultimately show ?thesis
    by (auto simp: server_inv_def list_all_iff less_SucI)
next
  case (PutBlog i d)
  moreover assume "serve_mutation r s = (res, s')" and "server_inv s"
  ultimately show ?thesis
    by (auto simp: server_inv_def list_all_iff comp_def split: if_splits)
next
  case (DeleteBlog i)
  moreover assume "serve_mutation r s = (res, s')" and "server_inv s"
  ultimately show ?thesis
    by (auto simp: server_inv_def list_all_iff distinct_map_filter split: if_splits)
qed

text \<open>Ids are never reused: an id below \<open>next_id\<close> that is not stored never comes back.\<close>

lemma serve_mutation_gone:
  "serve_mutation r s = (res, s') \<Longrightarrow> i < next_id s \<Longrightarrow> i \<notin> post_id ` set (stored s) \<Longrightarrow>
   i < next_id s' \<and> i \<notin> post_id ` set (stored s')"
  by (cases r) (auto split: if_splits)

text \<open>A rejected mutation leaves the store as it was; a second PUT on a post overrides the first.\<close>

lemma serve_mutation_failed: "serve_mutation r s = (Inl e, s') \<Longrightarrow> s' = s"
  by (cases r) (auto split: if_splits)

lemma replace_fields_twice [simp]: "replace_fields i d (replace_fields i d' p) = replace_fields i d p"
  by (simp add: replace_fields_def)

lemma map_replace_fields_twice [simp]:
  "map (replace_fields i d) (map (replace_fields i d') ps) = map (replace_fields i d) ps"
  by (induction ps) simp_all

lemma serve_delete_removes:
  "serve_mutation (DeleteBlog i) s = (res, s') \<Longrightarrow> i \<notin> post_id ` set (stored s')"
  by (auto split: if_splits)

end
