(* ===== verification/Blog_List.thy ===== *)
theory Blog_List
  imports Blog_Data
begin

text \<open>
  The list component (\<open>src/src/component/BlogList.js\<close>): its three pieces of React
  state as a record, one definition per handler, the rendered view as a function of the
  props and the state, the DOM events the view offers (with the propagation of a click
  to the row's \<open>onClick\<close>), and a dispatcher that runs one event and returns the new
  state with the calls it makes to the parent's \<open>onDelete\<close>/\<open>onUpdate\<close>.
  The only branch the model cannot represent is a section edit at an index the buffer
  does not have (JavaScript would create a sparse array); it is \<open>None\<close>, and the
  lemmas below show that no event the view offers reaches it.
\<close>

record list_state =
  activeBlogId :: "blog_id option"
  editMode :: bool
  editedBlog :: blog_data

definition list_init :: list_state where
  "list_init = \<lparr>activeBlogId = None, editMode = False, editedBlog = empty_blog\<rparr>"

text \<open>The calls the list makes to the props \<open>onDelete\<close> and \<open>onUpdate\<close>.\<close>

datatype list_output = OnDelete blog_id | OnUpdate blog_id blog_data

subsection \<open>Handlers\<close>

definition handleToggleContent :: "blog_id \<Rightarrow> list_state \<Rightarrow> list_state" where
  "handleToggleContent i st =
     (if activeBlogId st = Some i \<and> editMode st then st
      else st\<lparr>activeBlogId := (if activeBlogId st = Some i then None else Some i),
              editMode := False\<rparr>)"

definition handleEditClick :: "post \<Rightarrow> list_state \<Rightarrow> list_state" where
  "handleEditClick b st =
     st\<lparr>editMode := True, editedBlog := post_fields b, activeBlogId := Some (post_id b)\<rparr>"

definition handleEditChange :: "blog_field \<Rightarrow> string \<Rightarrow> list_state \<Rightarrow> list_state" where
  "handleEditChange f v st = st\<lparr>editedBlog := set_blog_field f v (editedBlog st)\<rparr>"

definition list_handleContentChange ::
  "nat \<Rightarrow> section_field \<Rightarrow> string \<Rightarrow> list_state \<Rightarrow> list_state option" where
  "list_handleContentChange i f v st =
     (let cs = content (editedBlog st) in
      if i < length cs
      then Some (st\<lparr>editedBlog := (editedBlog st)\<lparr>content := cs[i := set_section_field f v (cs ! i)]\<rparr>\<rparr>)
      else None)"

definition handleAddContentSection :: "list_state \<Rightarrow> list_state" where
  "handleAddContentSection st =
     st\<lparr>editedBlog := (editedBlog st)\<lparr>content := content (editedBlog st) @ [empty_section]\<rparr>\<rparr>"

definition handleRemoveContentSection :: "nat \<Rightarrow> list_state \<Rightarrow> list_state" where
  "handleRemoveContentSection k st =
     st\<lparr>editedBlog := (editedBlog st)\<lparr>content := js_filter_idx (\<lambda>_ i. i \<noteq> k) (content (editedBlog st))\<rparr>\<rparr>"

definition list_handleUpdateBlog :: "blog_id \<Rightarrow> list_state \<Rightarrow> list_state \<times> list_output" where
  "list_handleUpdateBlog i st = (st\<lparr>editMode := False\<rparr>, OnUpdate i (editedBlog st))"

definition handleCancelEdit :: "list_state \<Rightarrow> list_state" where
  "handleCancelEdit st = st\<lparr>editMode := False\<rparr>"

declare handleToggleContent_def [handler_defs] handleEditClick_def [handler_defs]
  handleEditChange_def [handler_defs] list_handleContentChange_def [handler_defs]
  handleAddContentSection_def [handler_defs] handleRemoveContentSection_def [handler_defs]
  list_handleUpdateBlog_def [handler_defs] handleCancelEdit_def [handler_defs]

subsection \<open>The rendered view\<close>

text \<open>
  A section as the collapsed/expanded panel shows it: heading, paragraph, and the image
  only when \<open>section.imageUrl\<close> is truthy (non-empty).
\<close>

datatype section_view = SectionView string string "string option"

definition render_section :: "content_section \<Rightarrow> section_view" where
  "render_section s =
     SectionView (heading s) (paragraph_text s) (if imageUrl s = '''' then None else Some (imageUrl s))"

text \<open>
  The body of a row is either the inline edit form showing the shared buffer, or the
  content panel (marked \<open>active\<close> when expanded) with the post's sections and its Delete
  button. A row is its key, whether its Edit button is rendered, and its body.
\<close>

datatype row_body = EditForm blog_data | ContentPanel bool "section_view list"

datatype row_view = Row blog_id bool row_body

definition render_row :: "list_state \<Rightarrow> post \<Rightarrow> row_view" where
  "render_row st b =
     Row (post_id b) (\<not> editMode st)
       (if editMode st \<and> activeBlogId st = Some (post_id b)
        then EditForm (editedBlog st)
        else ContentPanel (activeBlogId st = Some (post_id b)) (map render_section (content b)))"

definition blog_list_view :: "post list \<Rightarrow> list_state \<Rightarrow> row_view list" where
  "blog_list_view blogs st = map (render_row st) blogs"

fun row_has_editor :: "row_view \<Rightarrow> bool" where
  "row_has_editor (Row _ _ (EditForm _)) = True"
| "row_has_editor (Row _ _ (ContentPanel _ _)) = False"

subsection \<open>DOM events and their dispatch\<close>

text \<open>
  A click on a row outside its buttons and outside its edit form reaches the row's
  \<open>onClick\<close> (\<open>ClickBody\<close>). The Edit, Save and Cancel buttons and the edit form call
  \<open>stopPropagation\<close>; the Delete button does not, so its click runs \<open>onDelete\<close> and
  then bubbles to the row's \<open>handleToggleContent\<close>.
\<close>

datatype list_event =
    ClickBody blog_id
  | ClickEdit post
  | ClickDelete blog_id
  | ChangeField blog_field string
  | ChangeSection nat section_field string
  | ClickAddSection
  | ClickRemoveSection nat
  | ClickSave blog_id
  | ClickCancel

fun list_dispatch :: "list_state \<Rightarrow> list_event \<Rightarrow> (list_state \<times> list_output list) option" where
  "list_dispatch st (ClickBody i) = Some (handleToggleContent i st, [])"
| "list_dispatch st (ClickEdit b) = Some (handleEditClick b st, [])"
| "list_dispatch st (ClickDelete i) = Some (handleToggleContent i st, [OnDelete i])"
| "list_dispatch st (ChangeField f v) = Some (handleEditChange f v st, [])"
| "list_dispatch st (ChangeSection k f v) =
     map_option (\<lambda>st'. (st', [])) (list_handleContentChange k f v st)"
| "list_dispatch st ClickAddSection = Some (handleAddContentSection st, [])"
| "list_dispatch st (ClickRemoveSection k) = Some (handleRemoveContentSection k st, [])"
| "list_dispatch st (ClickSave i) = (let (st', out) = list_handleUpdateBlog i st in Some (st', [out]))"
| "list_dispatch st ClickCancel = Some (handleCancelEdit st, [])"

text \<open>
  The events the rendered view offers: a row's body for every listed post; an Edit
  button only while no edit is open; a Delete button in every row that shows its content
  panel; the edit form's controls only while a row shows the edit form, section controls
  only for the buffer's indices, and Save only in the row that shows the form.
\<close>

definition editor_shown :: "post list \<Rightarrow> list_state \<Rightarrow> bool" where
  "editor_shown blogs st = (editMode st \<and> (\<exists>b \<in> set blogs. activeBlogId st = Some (post_id b)))"

fun list_enabled :: "post list \<Rightarrow> list_state \<Rightarrow> list_event \<Rightarrow> bool" where
  "list_enabled blogs st (ClickBody i) = (i \<in> post_id ` set blogs)"
| "list_enabled blogs st (ClickEdit b) = (b \<in> set blogs \<and> \<not> editMode st)"
| "list_enabled blogs st (ClickDelete i) =
     (i \<in> post_id ` set blogs \<and> \<not> (editMode st \<and> activeBlogId st = Some i))"
| "list_enabled blogs st (ChangeField f v) = editor_shown blogs st"
| "list_enabled blogs st (ChangeSection k f v) =
     (editor_shown blogs st \<and> k < length (content (editedBlog st)))"
| "list_enabled blogs st ClickAddSection = editor_shown blogs st"
| "list_enabled blogs st (ClickRemoveSection k) =
     (editor_shown blogs st \<and> k < length (content (editedBlog st)))"
| "list_enabled blogs st (ClickSave i) =
     (editMode st \<and> activeBlogId st = Some i \<and> i \<in> post_id ` set blogs)"
| "list_enabled blogs st ClickCancel = editor_shown blogs st"

subsection \<open>The view-state invariant and the abstract view state\<close>

text \<open>
  The code keeps \<open>activeBlogId\<close>, \<open>editMode\<close> and \<open>editedBlog\<close> as three independent
  pieces of state. They are consistent when edit mode always has an active post.
\<close>

definition list_inv :: "list_state \<Rightarrow> bool" where
  "list_inv st = (editMode st \<longrightarrow> activeBlogId st \<noteq> None)"

text \<open>
  The abstract specification: the discriminated union \<open>Idle | Expanded(id) |
  Editing(id, buffer)\<close> of the spec's design notes, in which two posts being edited at
  once cannot even be written down, with its own transition function. The buffer is
  part of the state only while editing.
\<close>

datatype view_state = Idle | Expanded blog_id | Editing blog_id blog_data

definition abs_view :: "list_state \<Rightarrow> view_state" where
  "abs_view st =
     (case activeBlogId st of
        None \<Rightarrow> Idle
      | Some i \<Rightarrow> if editMode st then Editing i (editedBlog st) else Expanded i)"

fun view_toggle :: "blog_id \<Rightarrow> view_state \<Rightarrow> view_state" where
  "view_toggle i Idle = Expanded i"
| "view_toggle i (Expanded j) = (if j = i then Idle else Expanded i)"
| "view_toggle i (Editing j d) = (if j = i then Editing j d else Expanded i)"

fun edit_buffer :: "list_event \<Rightarrow> blog_data \<Rightarrow> blog_data" where
  "edit_buffer (ChangeField f x) d = set_blog_field f x d"
| "edit_buffer (ChangeSection k f x) d =
     d\<lparr>content := (content d)[k := set_section_field f x (content d ! k)]\<rparr>"
| "edit_buffer ClickAddSection d = d\<lparr>content := content d @ [empty_section]\<rparr>"
| "edit_buffer (ClickRemoveSection k) d =
     d\<lparr>content := take k (content d) @ drop (Suc k) (content d)\<rparr>"
| "edit_buffer _ d = d"

fun view_step :: "view_state \<Rightarrow> list_event \<Rightarrow> view_state \<times> list_output list" where
  "view_step v (ClickBody i) = (view_toggle i v, [])"
| "view_step v (ClickEdit b) = (Editing (post_id b) (post_fields b), [])"
| "view_step v (ClickDelete i) = (view_toggle i v, [OnDelete i])"
| "view_step (Editing j d) (ClickSave i) = (Expanded j, [OnUpdate i d])"
| "view_step (Editing j d) ClickCancel = (Expanded j, [])"
| "view_step (Editing j d) e = (Editing j (edit_buffer e d), [])"
| "view_step v e = (v, [])"

text \<open>
  The list states a user can reach: from the initial state, any event the rendered view
  offers, whatever list of posts the parent passes at that moment (the props change
  with every refresh).
\<close>

inductive list_reachable :: "list_state \<Rightarrow> bool" where
  init: "list_reachable list_init"
| step: "list_reachable st \<Longrightarrow> list_enabled blogs st e \<Longrightarrow> list_dispatch st e = Some (st', out)
         \<Longrightarrow> list_reachable st'"

fun row_edit_button :: "row_view \<Rightarrow> bool" where
  "row_edit_button (Row _ btn _) = btn"

text \<open>Concrete posts and states used by the witnesses below.\<close>

abbreviation editing_a :: list_state where
  "editing_a \<equiv> \<lparr>activeBlogId = Some 1, editMode = True, editedBlog = empty_blog\<rparr>"

subsection \<open>Lemmas\<close>

lemma list_dispatch_inv:
  "list_dispatch st e = Some (st', out) \<Longrightarrow> list_inv st \<Longrightarrow> list_inv st'"
  by (cases e) (auto simp: list_inv_def handler_defs Let_def split: if_splits)

lemma filter_render_row_editor:
  "filter row_has_editor (blog_list_view blogs st) =
   map (render_row st) (filter (\<lambda>b. editMode st \<and> activeBlogId st = Some (post_id b)) blogs)"
  by (induction blogs) (auto simp: blog_list_view_def render_row_def)

lemma filter_unique_key:
  "distinct (map post_id blogs) \<Longrightarrow> b \<in> set blogs \<Longrightarrow>
   filter (\<lambda>c. post_id b = post_id c) blogs = [b]"
  by (induction blogs) (auto simp: filter_empty_conv image_iff)

text \<open>
  C1. In every state, the rendered list shows the inline edit form in at most one row,
  provided the posts' ids are distinct (as server-assigned ids are).
\<close>

theorem at_most_one_editor:
  assumes "distinct (map post_id blogs)"
  shows "length (filter row_has_editor (blog_list_view blogs st)) \<le> 1"
proof (cases "editMode st \<and> activeBlogId st \<noteq> None")
  case True
  then obtain a where a: "editMode st" "activeBlogId st = Some a" by auto
  have "length (filter row_has_editor (blog_list_view blogs st)) =
        length (filter (\<lambda>b. a = post_id b) blogs)"
    using a by (simp add: filter_render_row_editor)
  also have "\<dots> \<le> 1" using assms by (rule distinct_key_filter_le_1)
  finally show ?thesis .
next
  case False
  then have "filter (\<lambda>b. editMode st \<and> activeBlogId st = Some (post_id b)) blogs = []"
    by auto
  then show ?thesis by (simp add: filter_render_row_editor)
qed

text \<open>
  C2. Refinement: under the invariant, every event the view offers moves the abstract
  view state of the three React state variables exactly as the discriminated-union
  design prescribes, with the same calls to the parent. Removing a section by
  \<open>filter((_, i) => i !== index)\<close> implements removal at the index.
\<close>

theorem list_dispatch_refines:
  assumes "list_inv st" and "list_enabled blogs st e"
    and "list_dispatch st e = Some (st', out)"
  shows "view_step (abs_view st) e = (abs_view st', out)"
  using assms
  by (cases e) (auto simp: abs_view_def list_inv_def editor_shown_def handler_defs Let_def
                     split: option.splits if_splits)

text \<open>
  C3. A click on the body of the post whose editor is open changes nothing and calls
  nothing: the open editor is not collapsed.
\<close>

theorem body_click_on_editor_noop:
  "editMode st \<Longrightarrow> activeBlogId st = Some i \<Longrightarrow> list_dispatch st (ClickBody i) = Some (st, [])"
  by (simp add: handler_defs)

text \<open>
  C4. After a click on a listed post's Edit button, the view shows exactly one edit
  form, in that post's row, filled with that post's current title, author and
  sections, whatever the buffer held before (an unsaved edit is discarded), and no
  row shows an Edit button.
\<close>

theorem edit_click_view:
  assumes "distinct (map post_id blogs)" and "b \<in> set blogs"
    and "list_dispatch st (ClickEdit b) = Some (st', out)"
  shows "filter row_has_editor (blog_list_view blogs st') = [Row (post_id b) False (EditForm (post_fields b))]
         \<and> filter row_edit_button (blog_list_view blogs st') = []"
proof -
  have st': "st' = st\<lparr>editMode := True, editedBlog := post_fields b, activeBlogId := Some (post_id b)\<rparr>"
    using assms(3) by (simp add: handler_defs)
  have "filter (\<lambda>c. post_id b = post_id c) blogs = [b]"
    using assms(1,2) by (rule filter_unique_key)
  then have "filter row_has_editor (blog_list_view blogs st') =
             [Row (post_id b) False (EditForm (post_fields b))]"
    by (simp add: filter_render_row_editor st' render_row_def)
  moreover have "filter row_edit_button (blog_list_view blogs st') = []"
    by (auto simp: blog_list_view_def render_row_def st' filter_empty_conv)
  ultimately show ?thesis by blast
qed

text \<open>
  C5. The invariant holds in every reachable list state: edit mode always has an
  active post.
\<close>

theorem list_reachable_inv: "list_reachable st \<Longrightarrow> list_inv st"
proof (induction rule: list_reachable.induct)
  case init
  then show ?case by (simp add: list_inv_def list_init_def)
next
  case (step st blogs e st' out)
  then show ?case by (blast intro: list_dispatch_inv)
qed

text \<open>
  C6. No event the view offers leaves the model: the one branch the model cannot
  represent (a section edit at an index the buffer does not have) is never reached.
\<close>

theorem list_enabled_defined:
  "list_enabled blogs st e \<Longrightarrow> \<exists>r. list_dispatch st e = Some r"
  by (cases e) (auto simp: handler_defs Let_def)

text \<open>
  C7. A click on a row's Delete button calls \<open>onDelete\<close> and, since the button does not
  stop propagation, also toggles that row: a collapsed row being deleted is expanded,
  an expanded one is collapsed, and edit mode is left.
\<close>

theorem delete_click_toggles:
  "\<not> (editMode st \<and> activeBlogId st = Some i) \<Longrightarrow>
   list_dispatch st (ClickDelete i) =
   Some (st\<lparr>activeBlogId := (if activeBlogId st = Some i then None else Some i), editMode := False\<rparr>,
         [OnDelete i])"
  by (auto simp: handler_defs)

text \<open>
  C8. When a refresh removes the post being edited, edit mode stays on with no edit
  form and no Edit button rendered anywhere; a click on any listed row's body is the
  only way back, and it leaves edit mode.
\<close>

theorem stale_edit_mode:
  assumes "editMode st" and "activeBlogId st \<notin> Some ` post_id ` set blogs"
    and "list_enabled blogs st (ClickBody i)"
  shows "filter (\<lambda>r. row_has_editor r \<or> row_edit_button r) (blog_list_view blogs st) = []
         \<and> \<not> editMode (handleToggleContent i st)"
  using assms by (auto simp: blog_list_view_def render_row_def handler_defs image_iff filter_empty_conv)

subsection \<open>Witnesses\<close>

lemma at_most_one_editor_witness:
  "distinct (map post_id [sample_post_a, sample_post_b])
   \<and> length (filter row_has_editor (blog_list_view [sample_post_a, sample_post_b] editing_a)) \<le> 1"
  using at_most_one_editor [of "[sample_post_a, sample_post_b]" editing_a] by simp

lemma list_dispatch_refines_witness:
  "list_inv editing_a \<and> list_enabled [sample_post_a] editing_a (ClickSave 1)
   \<and> list_dispatch editing_a (ClickSave 1) = Some (editing_a\<lparr>editMode := False\<rparr>, [OnUpdate 1 empty_blog])
   \<and> view_step (abs_view editing_a) (ClickSave 1)
       = (abs_view (editing_a\<lparr>editMode := False\<rparr>), [OnUpdate 1 empty_blog])"
proof -
  have h: "list_inv editing_a" "list_enabled [sample_post_a] editing_a (ClickSave 1)"
          "list_dispatch editing_a (ClickSave 1) = Some (editing_a\<lparr>editMode := False\<rparr>, [OnUpdate 1 empty_blog])"
    by (simp_all add: list_inv_def handler_defs)
  show ?thesis using h list_dispatch_refines [OF h] by simp
qed

lemma body_click_on_editor_noop_witness:
  "editMode editing_a \<and> activeBlogId editing_a = Some 1
   \<and> list_dispatch editing_a (ClickBody 1) = Some (editing_a, [])"
  using body_click_on_editor_noop [of editing_a 1] by simp

lemma edit_click_view_witness:
  "distinct (map post_id [sample_post_a, sample_post_b]) \<and> sample_post_b \<in> set [sample_post_a, sample_post_b]
   \<and> list_dispatch editing_a (ClickEdit sample_post_b) = Some (handleEditClick sample_post_b editing_a, [])
   \<and> filter row_has_editor (blog_list_view [sample_post_a, sample_post_b] (handleEditClick sample_post_b editing_a))
       = [Row 2 False (EditForm (post_fields sample_post_b))]
   \<and> filter row_edit_button (blog_list_view [sample_post_a, sample_post_b] (handleEditClick sample_post_b editing_a)) = []"
  using edit_click_view [of "[sample_post_a, sample_post_b]" sample_post_b editing_a
                            "handleEditClick sample_post_b editing_a" "[]"]
  by simp

lemma list_reachable_inv_witness:
  "list_reachable (handleEditClick sample_post_a list_init)
   \<and> list_inv (handleEditClick sample_post_a list_init)"
proof -
  have r: "list_reachable (handleEditClick sample_post_a list_init)"
    by (rule list_reachable.step [OF list_reachable.init, of "[sample_post_a]" "ClickEdit sample_post_a" _ "[]"])
       (simp_all add: list_init_def)
  show ?thesis using r list_reachable_inv [OF r] by simp
qed

lemma list_enabled_defined_witness:
  "list_enabled [sample_post_a] (handleEditClick sample_post_a list_init) (ChangeSection 0 Heading ''Intro'')
   \<and> (\<exists>r. list_dispatch (handleEditClick sample_post_a list_init) (ChangeSection 0 Heading ''Intro'') = Some r)"
proof -
  have h: "list_enabled [sample_post_a] (handleEditClick sample_post_a list_init) (ChangeSection 0 Heading ''Intro'')"
    by (simp add: handler_defs editor_shown_def)
  show ?thesis using h list_enabled_defined [OF h] by simp
qed

lemma delete_click_toggles_witness:
  "\<not> (editMode list_init \<and> activeBlogId list_init = Some 1)
   \<and> list_dispatch list_init (ClickDelete 1)
     = Some (list_init\<lparr>activeBlogId := Some 1, editMode := False\<rparr>, [OnDelete 1])"
  using delete_click_toggles [of list_init 1] by (simp add: list_init_def)

lemma stale_edit_mode_witness:
  "editMode (editing_a\<lparr>activeBlogId := Some 7\<rparr>)
   \<and> activeBlogId (editing_a\<lparr>activeBlogId := Some 7\<rparr>) \<notin> Some ` post_id ` set [sample_post_a]
   \<and> list_enabled [sample_post_a] (editing_a\<lparr>activeBlogId := Some 7\<rparr>) (ClickBody 1)
   \<and> filter (\<lambda>r. row_has_editor r \<or> row_edit_button r)
         (blog_list_view [sample_post_a] (editing_a\<lparr>activeBlogId := Some 7\<rparr>)) = []
   \<and> \<not> editMode (handleToggleContent 1 (editing_a\<lparr>activeBlogId := Some 7\<rparr>))"
  using stale_edit_mode [of "editing_a\<lparr>activeBlogId := Some 7\<rparr>" "[sample_post_a]" 1] by simp

end
