(* ===== verification/Blog_Manager.thy ===== *)
theory Blog_Manager
  imports Blog_Api Blog_List
begin

text \<open>
  The store client (\<open>src/src/component/BlogManager.js\<close>). Its state is the post
  collection \<open>blogs\<close> and the selection \<open>selectedBlog\<close>. Each \<open>async\<close> handler is
  split where it awaits: the part that runs when it is called returns the requests it
  starts (with what will run when each request settles), and the part after the
  \<open>await\<close> is a function of the settled result (\<open>Inl\<close> for a rejection, which the
  code's \<open>catch\<close> logs and swallows). A call to \<open>fetchBlogs()\<close> that is not awaited
  simply adds a GET to the requests in flight.
\<close>

record manager =
  blogs :: "post list"
  selectedBlog :: "post option"

definition manager_init :: manager where
  "manager_init = \<lparr>blogs = [], selectedBlog = None\<rparr>"

text \<open>What runs when a mutation settles: the rest of the handler that awaited it.\<close>

datatype continuation = KSave | KUpdate | KDelete

text \<open>A request in flight: sent and not yet answered, or answered and not yet delivered.\<close>

datatype pending =
    GetSent
  | GetAnswered "request_error + post list"
  | MutSent continuation mutation
  | MutAnswered continuation "request_error + unit"

subsection \<open>Handlers\<close>

definition fetchBlogs :: "pending list" where
  "fetchBlogs = [GetSent]"

definition fetchBlogs_resume :: "request_error + post list \<Rightarrow> manager \<Rightarrow> manager" where
  "fetchBlogs_resume r m = (case r of Inr ps \<Rightarrow> m\<lparr>blogs := ps\<rparr> | Inl _ \<Rightarrow> m)"

definition handleCreateOrUpdateBlog :: "blog_data \<Rightarrow> manager \<Rightarrow> pending list" where
  "handleCreateOrUpdateBlog d m =
     [MutSent KSave (case selectedBlog m of Some b \<Rightarrow> PutBlog (post_id b) d | None \<Rightarrow> PostBlog d)]"

definition handleCreateOrUpdateBlog_resume ::
  "request_error + unit \<Rightarrow> manager \<Rightarrow> manager \<times> pending list" where
  "handleCreateOrUpdateBlog_resume r m =
     (case r of Inr _ \<Rightarrow> (m\<lparr>selectedBlog := None\<rparr>, fetchBlogs) | Inl _ \<Rightarrow> (m, []))"

definition mgr_handleUpdateBlog :: "blog_id \<Rightarrow> blog_data \<Rightarrow> pending list" where
  "mgr_handleUpdateBlog i d = [MutSent KUpdate (PutBlog i d)]"

definition mgr_handleUpdateBlog_resume :: "request_error + unit \<Rightarrow> pending list" where
  "mgr_handleUpdateBlog_resume r = (case r of Inr _ \<Rightarrow> fetchBlogs | Inl _ \<Rightarrow> [])"

definition handleDeleteBlog :: "blog_id \<Rightarrow> pending list" where
  "handleDeleteBlog i = [MutSent KDelete (DeleteBlog i)]"

definition handleDeleteBlog_resume :: "request_error + unit \<Rightarrow> pending list" where
  "handleDeleteBlog_resume r = (case r of Inr _ \<Rightarrow> fetchBlogs | Inl _ \<Rightarrow> [])"

definition handleEditBlog :: "post \<Rightarrow> manager \<Rightarrow> manager" where
  "handleEditBlog b m = m\<lparr>selectedBlog := Some b\<rparr>"

declare fetchBlogs_def [handler_defs] fetchBlogs_resume_def [handler_defs]
  handleCreateOrUpdateBlog_def [handler_defs] handleCreateOrUpdateBlog_resume_def [handler_defs]
  mgr_handleUpdateBlog_def [handler_defs] mgr_handleUpdateBlog_resume_def [handler_defs]
  handleDeleteBlog_def [handler_defs] handleDeleteBlog_resume_def [handler_defs]
  handleEditBlog_def [handler_defs]

fun mgr_resume :: "continuation \<Rightarrow> request_error + unit \<Rightarrow> manager \<Rightarrow> manager \<times> pending list" where
  "mgr_resume KSave r m = handleCreateOrUpdateBlog_resume r m"
| "mgr_resume KUpdate r m = (m, mgr_handleUpdateBlog_resume r)"
| "mgr_resume KDelete r m = (m, handleDeleteBlog_resume r)"

subsection \<open>Wiring of the children\<close>

text \<open>
  The props the manager passes: \<open>BlogForm\<close> gets \<open>onSubmit = handleCreateOrUpdateBlog\<close>
  and \<open>initialData = selectedBlog || {}\<close>; \<open>BlogList\<close> gets \<open>onDelete\<close> and
  \<open>onUpdate\<close> (and an \<open>onEdit\<close> it never reads). The list's calls become requests.
\<close>

definition form_initial_data :: "manager \<Rightarrow> post option" where
  "form_initial_data m = selectedBlog m"

fun list_call :: "list_output \<Rightarrow> pending list" where
  "list_call (OnDelete i) = handleDeleteBlog i"
| "list_call (OnUpdate i d) = mgr_handleUpdateBlog i d"

subsection \<open>Lemmas\<close>

lemma mgr_resume_failed [simp]: "mgr_resume c (Inl e) m = (m, [])"
  by (cases c) (simp_all add: handler_defs)

lemma mgr_resume_selected: "selectedBlog m = None \<Longrightarrow> mgr_resume c r m = (m', new) \<Longrightarrow> selectedBlog m' = None"
  by (cases c; cases r) (auto simp: handler_defs)

lemma mgr_resume_blogs [simp]: "mgr_resume c r m = (m', new) \<Longrightarrow> blogs m' = blogs m"
  by (cases c; cases r) (auto simp: handler_defs)

lemma mgr_resume_success: "mgr_resume c (Inr u) m = (m', new) \<Longrightarrow> new = [GetSent]"
  by (cases c) (auto simp: handler_defs)

lemma mgr_resume_new: "mgr_resume c r m = (m', new) \<Longrightarrow> set new \<subseteq> {GetSent}"
  by (cases c; cases r) (auto simp: handler_defs)

lemma list_call_new: "set (list_call out) \<subseteq> {MutSent KDelete (DeleteBlog i) | i. True} \<union> {MutSent KUpdate (PutBlog i d) | i d. True}"
  by (cases out) (auto simp: handler_defs)

text \<open>
  C23. When a mutation settles, whichever handler awaited it, the manager's posts are
  untouched and exactly one refresh is started on success, none on failure: the code
  never patches its collection locally and never retries.
\<close>

theorem mutation_settle_refreshes:
  "mgr_resume c r m = (m', new) \<Longrightarrow>
   blogs m' = blogs m \<and> new = (case r of Inr _ \<Rightarrow> [GetSent] | Inl _ \<Rightarrow> [])"
  by (cases c; cases r) (auto simp: handler_defs)

subsection \<open>Witnesses\<close>

lemma mutation_settle_refreshes_witness:
  "mgr_resume KDelete (Inr ()) manager_init = (manager_init, [GetSent])
   \<and> blogs manager_init = blogs manager_init
   \<and> [GetSent] = (case (Inr () :: request_error + unit) of Inr _ \<Rightarrow> [GetSent] | Inl _ \<Rightarrow> [])"
proof -
  have h: "mgr_resume KDelete (Inr ()) manager_init = (manager_init, [GetSent])"
    by (simp add: handler_defs)
  show ?thesis using h mutation_settle_refreshes [OF h] by simp
qed

end
