(* ===== verification/Blog_Form.thy ===== *)
theory Blog_Form
  imports Blog_Data
begin

text \<open>
  The creation form (\<open>src/src/component/BlogForm.js\<close>). Its three \<open>useState\<close>
  variables \<open>title\<close>, \<open>author\<close>, \<open>content\<close> are exactly the fields of
  \<^typ>\<open>blog_data\<close>, so the form state is a \<^typ>\<open>blog_data\<close>; the props are the
  optional post \<open>initialData\<close> (\<open>None\<close> for \<open>{}\<close>) and the \<open>onSubmit\<close> callback,
  whose call is returned as the emitted payload. The section edit writes into the
  section object in place and throws a \<open>TypeError\<close> at an index the array does not
  have; the browser's constraint validation of the \<open>required\<close> inputs decides
  whether a click on Submit reaches \<open>handleSubmit\<close> at all.
\<close>

datatype js_error = TypeError

text \<open>\<open>useState(initialData.title || "")\<close> and its two siblings, evaluated at mount.\<close>

definition blog_form_init :: "post option \<Rightarrow> blog_data" where
  "blog_form_init init =
     (case init of
        None \<Rightarrow> \<lparr>title = '''', author = '''', content = []\<rparr>
      | Some p \<Rightarrow> \<lparr>title = title p, author = author p, content = content p\<rparr>)"

definition form_heading :: "post option \<Rightarrow> string" where
  "form_heading init = (case init of Some _ \<Rightarrow> ''Update Blog'' | None \<Rightarrow> ''Create Blog'')"

definition handleAddContent :: "blog_data \<Rightarrow> blog_data" where
  "handleAddContent d = d\<lparr>content := content d @ [empty_section]\<rparr>"

definition form_handleContentChange ::
  "nat \<Rightarrow> section_field \<Rightarrow> string \<Rightarrow> blog_data \<Rightarrow> js_error + blog_data" where
  "form_handleContentChange i f v d =
     (if i < length (content d)
      then Inr (d\<lparr>content := (content d)[i := set_section_field f v (content d ! i)]\<rparr>)
      else Inl TypeError)"

text \<open>
  \<open>handleSubmit\<close>: \<open>onSubmit({ title, author, content })\<close>, then the reset of all three
  fields. The result is the new state and the payload passed to \<open>onSubmit\<close>.
\<close>

definition handleSubmit :: "blog_data \<Rightarrow> blog_data \<times> blog_data" where
  "handleSubmit d =
     (\<lparr>title = '''', author = '''', content = []\<rparr>,
      \<lparr>title = title d, author = author d, content = content d\<rparr>)"

declare handleAddContent_def [handler_defs] form_handleContentChange_def [handler_defs]
  handleSubmit_def [handler_defs]

text \<open>
  The \<open>required\<close> attributes of the rendered form: the title input, the author input
  and the paragraph textarea of every section. A submit attempt with any of them empty
  is stopped by the browser before the form's \<open>submit\<close> event fires.
\<close>

definition form_valid :: "blog_data \<Rightarrow> bool" where
  "form_valid d =
     (title d \<noteq> '''' \<and> author d \<noteq> '''' \<and> list_all (\<lambda>s. paragraph_text s \<noteq> '''') (content d))"

datatype form_event =
    FormSetTitle string
  | FormSetAuthor string
  | FormChangeSection nat section_field string
  | FormAddSection
  | FormSubmitClick

text \<open>One event on the form: the new state and the payload emitted to \<open>onSubmit\<close>, if any.\<close>

fun form_step :: "blog_data \<Rightarrow> form_event \<Rightarrow> js_error + (blog_data \<times> blog_data option)" where
  "form_step d (FormSetTitle v) = Inr (d\<lparr>title := v\<rparr>, None)"
| "form_step d (FormSetAuthor v) = Inr (d\<lparr>author := v\<rparr>, None)"
| "form_step d (FormChangeSection i f v) =
     (case form_handleContentChange i f v d of
        Inl e \<Rightarrow> Inl e
      | Inr d' \<Rightarrow> Inr (d', None))"
| "form_step d FormAddSection = Inr (handleAddContent d, None)"
| "form_step d FormSubmitClick =
     (if form_valid d then (let (d', payload) = handleSubmit d in Inr (d', Some payload))
      else Inr (d, None))"

text \<open>The section inputs exist only for the indices \<open>content.map\<close> renders.\<close>

fun form_enabled :: "blog_data \<Rightarrow> form_event \<Rightarrow> bool" where
  "form_enabled d (FormChangeSection i f v) = (i < length (content d))"
| "form_enabled d _ = True"

fun form_run :: "blog_data \<Rightarrow> form_event list \<Rightarrow> js_error + (blog_data \<times> blog_data list)" where
  "form_run d [] = Inr (d, [])"
| "form_run d (e # es) =
     (case form_step d e of
        Inl err \<Rightarrow> Inl err
      | Inr (d', out) \<Rightarrow>
          (case form_run d' es of
             Inl err \<Rightarrow> Inl err
           | Inr (d'', outs) \<Rightarrow> Inr (d'', (case out of None \<Rightarrow> [] | Some p \<Rightarrow> [p]) @ outs)))"

subsection \<open>Lemmas\<close>

text \<open>
  C9. Submitting a form whose required fields are filled emits exactly the entered
  title, author and sections to \<open>onSubmit\<close> and resets all three fields to empty in
  the same handler, before the request the parent starts has resolved (so whatever
  its outcome).
\<close>

theorem form_submit_resets:
  "form_valid d \<Longrightarrow> form_step d FormSubmitClick = Inr (empty_blog, Some d)"
  by (simp add: handler_defs empty_blog_def)

text \<open>
  C10. Since every section's paragraph is \<open>required\<close>, a click on Submit right after
  "Add Section" emits nothing and changes nothing: the new empty section blocks the
  submission.
\<close>

theorem add_section_blocks_submit:
  "form_step (handleAddContent d) FormSubmitClick = Inr (handleAddContent d, None)"
  by (simp add: form_valid_def handler_defs empty_section_def)

text \<open>
  C11. Editing a field of an existing section changes that field of that section to the
  new value and nothing else: the other fields of the section, the other sections, the
  number of sections, the title and the author are kept.
\<close>

theorem form_content_change_frame:
  assumes "i < length (content d)"
  shows "\<exists>d'. form_handleContentChange i f v d = Inr d'
           \<and> title d' = title d \<and> author d' = author d
           \<and> length (content d') = length (content d)
           \<and> section_field_value f (content d' ! i) = v
           \<and> (\<forall>g. g \<noteq> f \<longrightarrow> section_field_value g (content d' ! i) = section_field_value g (content d ! i))
           \<and> (\<forall>j. j \<noteq> i \<longrightarrow> content d' ! j = content d ! j)"
  using assms by (simp add: handler_defs)

text \<open>
  C12. Editing a section at an index the content array does not have throws a
  \<open>TypeError\<close> (\<open>updatedContent[index]\<close> is \<open>undefined\<close>).
\<close>

theorem form_content_change_out_of_range:
  "length (content d) \<le> i \<Longrightarrow> form_handleContentChange i f v d = Inl TypeError"
  by (simp add: handler_defs)

text \<open>C13. No event the rendered form offers throws: its section inputs carry rendered indices only.\<close>

theorem form_enabled_no_error:
  "form_enabled d e \<Longrightarrow> \<exists>r. form_step d e = Inr r"
  by (cases e) (auto simp: handler_defs Let_def)

text \<open>
  C14. Composing a post in a fresh form (title, author, one section with a paragraph)
  and submitting it emits exactly that post, with its one section in place, and leaves
  the form empty.
\<close>

theorem form_create_one_section:
  assumes "t \<noteq> ''''" and "a \<noteq> ''''" and "p \<noteq> ''''"
  shows "form_run (blog_form_init None)
           [FormSetTitle t, FormSetAuthor a, FormAddSection, FormChangeSection 0 Paragraph p, FormSubmitClick]
         = Inr (empty_blog, [\<lparr>title = t, author = a, content = [empty_section\<lparr>paragraph_text := p\<rparr>]\<rparr>])"
  using assms by (simp add: blog_form_init_def form_valid_def handler_defs empty_blog_def)

text \<open>
  C15. In edit mode (an \<open>initialData\<close> post given at mount) the form is headed
  "Update Blog" and is pre-filled from the post; submitting it unchanged emits the
  post's title, author and sections only (a \<^typ>\<open>blog_data\<close>, which has no id) and
  empties the form.
\<close>

theorem edit_mode_submit:
  "form_valid (post_fields p) \<Longrightarrow>
   form_heading (Some p) = ''Update Blog'' \<and>
   form_step (blog_form_init (Some p)) FormSubmitClick = Inr (empty_blog, Some (post_fields p))"
  by (simp add: form_heading_def blog_form_init_def post_fields_def handler_defs empty_blog_def)

subsection \<open>Witnesses\<close>

lemma form_submit_resets_witness:
  "form_valid sample_draft \<and> form_step sample_draft FormSubmitClick = Inr (empty_blog, Some sample_draft)"
proof -
  have h: "form_valid sample_draft" by (simp add: form_valid_def empty_section_def)
  show ?thesis using h form_submit_resets [OF h] by simp
qed

lemma form_content_change_frame_witness:
  "0 < length (content sample_draft)
   \<and> (\<exists>d'. form_handleContentChange 0 Heading ''Intro'' sample_draft = Inr d'
           \<and> section_field_value Heading (content d' ! 0) = ''Intro''
           \<and> length (content d') = 1)"
  using form_content_change_frame [of 0 sample_draft Heading "''Intro''"] by auto

lemma form_content_change_out_of_range_witness:
  "length (content sample_draft) \<le> 1
   \<and> form_handleContentChange 1 Heading ''Intro'' sample_draft = Inl TypeError"
  using form_content_change_out_of_range [of sample_draft 1 Heading "''Intro''"] by simp

lemma form_enabled_no_error_witness:
  "form_enabled sample_draft (FormChangeSection 0 ImageUrl ''map.png'')
   \<and> (\<exists>r. form_step sample_draft (FormChangeSection 0 ImageUrl ''map.png'') = Inr r)"
  using form_enabled_no_error [of sample_draft "FormChangeSection 0 ImageUrl ''map.png''"] by simp

lemma form_create_one_section_witness:
  "form_run (blog_form_init None)
     [FormSetTitle ''Dholera'', FormSetAuthor ''Ann'', FormAddSection,
      FormChangeSection 0 Paragraph ''Plots'', FormSubmitClick]
   = Inr (empty_blog, [sample_draft])"
  using form_create_one_section [of "''Dholera''" "''Ann''" "''Plots''"] by simp

lemma edit_mode_submit_witness:
  "form_valid (post_fields sample_post_b)
   \<and> form_heading (Some sample_post_b) = ''Update Blog''
   \<and> form_step (blog_form_init (Some sample_post_b)) FormSubmitClick
       = Inr (empty_blog, Some (post_fields sample_post_b))"
proof -
  have h: "form_valid (post_fields sample_post_b)" by (simp add: form_valid_def post_fields_def)
  show ?thesis using h edit_mode_submit [OF h] by simp
qed

end
