(* ===== verification/Blog_App.thy ===== *)
theory Blog_App
  imports Blog_Manager Blog_Form
begin

text \<open>
  The whole application as it runs in the browser against its server: the server's
  store, the manager's state, the form's state, the list's state and the requests in
  flight. A step is one user event on the form or on the list (run to its first
  \<open>await\<close>, the requests it starts appended to those in flight), the server handling
  one request in flight, the network failing one (before the server saw it, or by
  losing its reply), or the browser delivering one settled request to the code after its
  \<open>await\<close>. Requests are handled and delivered in any order: JavaScript runs one
  continuation at a time, but nothing in the code orders the responses.
\<close>

record app =
  srv :: server
  mgr :: manager
  form :: blog_data
  lst :: list_state
  net :: "pending list"

text \<open>
  Mount: the form's \<open>useState\<close> initialisers read \<open>initialData = selectedBlog || {}\<close>
  once, the list starts collapsed, and the manager's \<open>useEffect\<close> calls \<open>fetchBlogs()\<close>.
\<close>

definition app_init :: "server \<Rightarrow> app" where
  "app_init s =
     \<lparr>srv = s, mgr = manager_init, form = blog_form_init (form_initial_data manager_init),
      lst = list_init, net = fetchBlogs\<rparr>"

fun submit_call :: "blog_data option \<Rightarrow> manager \<Rightarrow> pending list" where
  "submit_call None m = []"
| "submit_call (Some p) m = handleCreateOrUpdateBlog p m"

inductive app_step :: "app \<Rightarrow> app \<Rightarrow> bool" where
  form_event: "form_enabled (form a) e \<Longrightarrow> form_step (form a) e = Inr (d', out) \<Longrightarrow>
     app_step a (a\<lparr>form := d', net := net a @ submit_call out (mgr a)\<rparr>)"
| list_event: "list_enabled (blogs (mgr a)) (lst a) e \<Longrightarrow> list_dispatch (lst a) e = Some (l', outs) \<Longrightarrow>
     app_step a (a\<lparr>lst := l', net := net a @ concat (map list_call outs)\<rparr>)"
| serve_get: "k < length (net a) \<Longrightarrow> net a ! k = GetSent \<Longrightarrow>
     app_step a (a\<lparr>net := (net a)[k := GetAnswered (serve_get (srv a))]\<rparr>)"
| serve_mut: "k < length (net a) \<Longrightarrow> net a ! k = MutSent c r \<Longrightarrow> serve_mutation r (srv a) = (res, s') \<Longrightarrow>
     app_step a (a\<lparr>srv := s', net := (net a)[k := MutAnswered c res]\<rparr>)"
| lose_get: "k < length (net a) \<Longrightarrow> net a ! k = GetSent \<Longrightarrow>
     app_step a (a\<lparr>net := (net a)[k := GetAnswered (Inl NetworkError)]\<rparr>)"
| lose_mut: "k < length (net a) \<Longrightarrow> net a ! k = MutSent c r \<Longrightarrow>
     app_step a (a\<lparr>net := (net a)[k := MutAnswered c (Inl NetworkError)]\<rparr>)"
| lose_get_reply: "k < length (net a) \<Longrightarrow> net a ! k = GetAnswered (Inr ps) \<Longrightarrow>
     app_step a (a\<lparr>net := (net a)[k := GetAnswered (Inl NetworkError)]\<rparr>)"
| lose_mut_reply: "k < length (net a) \<Longrightarrow> net a ! k = MutAnswered c (Inr u) \<Longrightarrow>
     app_step a (a\<lparr>net := (net a)[k := MutAnswered c (Inl NetworkError)]\<rparr>)"
| deliver_get: "k < length (net a) \<Longrightarrow> net a ! k = GetAnswered r \<Longrightarrow>
     app_step a (a\<lparr>mgr := fetchBlogs_resume r (mgr a), net := remove_at k (net a)\<rparr>)"
| deliver_mut: "k < length (net a) \<Longrightarrow> net a ! k = MutAnswered c r \<Longrightarrow> mgr_resume c r (mgr a) = (m', new) \<Longrightarrow>
     app_step a (a\<lparr>mgr := m', net := remove_at k (net a) @ new\<rparr>)"

inductive app_reach :: "app \<Rightarrow> bool" where
  init: "server_inv s \<Longrightarrow> app_reach (app_init s)"
| step: "app_reach a \<Longrightarrow> app_step a b \<Longrightarrow> app_reach b"

subsection \<open>An executable step\<close>

text \<open>
  The same steps as a function of a labelled action (a user event, or the server, the
  network or the browser acting on the \<open>k\<close>-th request in flight), so that a run of
  actions can be evaluated; \<open>app_step_iff_exec\<close> below shows it is the relation.
\<close>

datatype action = FormAct form_event | ListAct list_event | Serve nat | Lose nat | Deliver nat

fun app_exec :: "app \<Rightarrow> action \<Rightarrow> app option" where
  "app_exec a (FormAct e) =
     (if form_enabled (form a) e then
        (case form_step (form a) e of
           Inl _ \<Rightarrow> None
         | Inr (d', out) \<Rightarrow> Some (a\<lparr>form := d', net := net a @ submit_call out (mgr a)\<rparr>))
      else None)"
| "app_exec a (ListAct e) =
     (if list_enabled (blogs (mgr a)) (lst a) e then
        (case list_dispatch (lst a) e of
           None \<Rightarrow> None
         | Some (l', outs) \<Rightarrow> Some (a\<lparr>lst := l', net := net a @ concat (map list_call outs)\<rparr>))
      else None)"
| "app_exec a (Serve k) =
     (if k < length (net a) then
        (case net a ! k of
           GetSent \<Rightarrow> Some (a\<lparr>net := (net a)[k := GetAnswered (serve_get (srv a))]\<rparr>)
         | MutSent c r \<Rightarrow>
             (case serve_mutation r (srv a) of
                (res, s') \<Rightarrow> Some (a\<lparr>srv := s', net := (net a)[k := MutAnswered c res]\<rparr>))
         | _ \<Rightarrow> None)
      else None)"
| "app_exec a (Lose k) =
     (if k < length (net a) then
        (case net a ! k of
           GetSent \<Rightarrow> Some (a\<lparr>net := (net a)[k := GetAnswered (Inl NetworkError)]\<rparr>)
         | MutSent c r \<Rightarrow> Some (a\<lparr>net := (net a)[k := MutAnswered c (Inl NetworkError)]\<rparr>)
         | GetAnswered (Inr ps) \<Rightarrow> Some (a\<lparr>net := (net a)[k := GetAnswered (Inl NetworkError)]\<rparr>)
         | MutAnswered c (Inr u) \<Rightarrow> Some (a\<lparr>net := (net a)[k := MutAnswered c (Inl NetworkError)]\<rparr>)
         | _ \<Rightarrow> None)
      else None)"
| "app_exec a (Deliver k) =
     (if k < length (net a) then
        (case net a ! k of
           GetAnswered r \<Rightarrow> Some (a\<lparr>mgr := fetchBlogs_resume r (mgr a), net := remove_at k (net a)\<rparr>)
         | MutAnswered c r \<Rightarrow>
             (case mgr_resume c r (mgr a) of
                (m', new) \<Rightarrow> Some (a\<lparr>mgr := m', net := remove_at k (net a) @ new\<rparr>))
         | _ \<Rightarrow> None)
      else None)"

fun app_run :: "app \<Rightarrow> action list \<Rightarrow> app option" where
  "app_run a [] = Some a"
| "app_run a (x # xs) = (case app_exec a x of None \<Rightarrow> None | Some b \<Rightarrow> app_run b xs)"

fun is_loss :: "action \<Rightarrow> bool" where
  "is_loss (Lose _) = True"
| "is_loss _ = False"

text \<open>
  The steps that need no user: the server handling a request, the browser delivering a
  settled one. A reliable network that handles the requests one at a time, in the
  order they were sent, always acts on the first request in flight; \<open>settle n\<close> runs
  it for at most \<open>n\<close> steps and is \<open>None\<close> when that is not enough.
\<close>

fun is_net_action :: "action \<Rightarrow> bool" where
  "is_net_action (Serve _) = True"
| "is_net_action (Deliver _) = True"
| "is_net_action _ = False"

fun head_action :: "pending \<Rightarrow> action" where
  "head_action GetSent = Serve 0"
| "head_action (MutSent _ _) = Serve 0"
| "head_action (GetAnswered _) = Deliver 0"
| "head_action (MutAnswered _ _) = Deliver 0"

fun settle :: "nat \<Rightarrow> app \<Rightarrow> app option" where
  "settle 0 a = (if net a = [] then Some a else None)"
| "settle (Suc n) a =
     (case net a of
        [] \<Rightarrow> Some a
      | p # _ \<Rightarrow> (case app_exec a (head_action p) of None \<Rightarrow> None | Some b \<Rightarrow> settle n b))"

subsection \<open>The application invariant\<close>

fun pending_ok :: "pending \<Rightarrow> bool" where
  "pending_ok (GetAnswered (Inr ps)) = distinct (map post_id ps)"
| "pending_ok _ = True"

definition app_inv :: "app \<Rightarrow> bool" where
  "app_inv a =
     (server_inv (srv a) \<and> selectedBlog (mgr a) = None \<and> distinct (map post_id (blogs (mgr a)))
      \<and> list_all pending_ok (net a) \<and> list_inv (lst a))"

text \<open>A weight on the requests in flight that every step on the first one decreases.\<close>

fun pending_weight :: "pending \<Rightarrow> nat" where
  "pending_weight GetSent = 2"
| "pending_weight (GetAnswered _) = 1"
| "pending_weight (MutSent _ _) = 4"
| "pending_weight (MutAnswered _ _) = 3"

definition net_weight :: "app \<Rightarrow> nat" where
  "net_weight a = sum_list (map pending_weight (net a))"

text \<open>
  The initial server of the concrete runs below: one stored post (id 1); and the run
  that shows a deleted post coming back from a stale refresh.
\<close>

abbreviation server_a :: server where
  "server_a \<equiv> \<lparr>stored = [sample_post_a], next_id = 2, clock = 1\<rparr>"

abbreviation stale_trace :: "action list" where
  "stale_trace \<equiv>
     [Serve 0, Deliver 0, ListAct (ClickEdit sample_post_a), ListAct (ClickSave 1),
      Serve 0, Deliver 0, Serve 0, ListAct (ClickDelete 1), Serve 1, Deliver 1, Serve 1, Deliver 1, Deliver 0]"

subsection \<open>Lemmas\<close>

lemma pending_ok_update:
  "list_all pending_ok xs \<Longrightarrow> pending_ok x \<Longrightarrow> list_all pending_ok (xs[k := x])"
  by (auto simp: list_all_iff dest: set_update_subset_insert [THEN subsetD])

lemma pending_ok_remove_at:
  "list_all pending_ok xs \<Longrightarrow> list_all pending_ok (remove_at k xs)"
  using set_remove_at by (fastforce simp: list_all_iff)

lemma pending_ok_nth:
  "list_all pending_ok xs \<Longrightarrow> k < length xs \<Longrightarrow> xs ! k = GetAnswered (Inr ps) \<Longrightarrow> distinct (map post_id ps)"
  by (metis list_all_length pending_ok.simps(1))

lemma pending_ok_list_call [simp]: "list_all pending_ok (list_call out)"
  by (cases out) (simp_all add: handler_defs)

lemma pending_ok_list_calls [simp]: "list_all pending_ok (concat (map list_call outs))"
  by (induction outs) simp_all

lemma pending_ok_submit_call [simp]: "list_all pending_ok (submit_call out m)"
  by (cases out) (simp_all add: handler_defs)

lemma pending_ok_mgr_resume: "mgr_resume c r m = (m', new) \<Longrightarrow> list_all pending_ok new"
  using mgr_resume_new by (fastforce simp: list_all_iff)

lemma app_step_inv: "app_step a b \<Longrightarrow> app_inv a \<Longrightarrow> app_inv b"
proof (induction rule: app_step.induct)
  case (form_event a e d' out)
  then show ?case by (simp add: app_inv_def)
next
  case (list_event a e l' outs)
  then show ?case by (auto simp: app_inv_def intro: list_dispatch_inv)
next
  case (serve_get k a)
  then show ?case by (simp add: app_inv_def serve_get_def server_inv_def pending_ok_update)
next
  case (serve_mut k a c r res s')
  then show ?case by (auto simp: app_inv_def pending_ok_update intro: serve_mutation_inv)
next
  case (lose_get k a)
  then show ?case by (simp add: app_inv_def pending_ok_update)
next
  case (lose_mut k a c r)
  then show ?case by (simp add: app_inv_def pending_ok_update)
next
  case (lose_get_reply k a ps)
  then show ?case by (simp add: app_inv_def pending_ok_update)
next
  case (lose_mut_reply k a c u)
  then show ?case by (simp add: app_inv_def pending_ok_update)
next
  case (deliver_get k a r)
  then show ?case
    by (auto simp: app_inv_def fetchBlogs_resume_def pending_ok_remove_at
             dest: pending_ok_nth split: sum.splits)
next
  case (deliver_mut k a c r m' new)
  then show ?case
    by (auto simp: app_inv_def pending_ok_remove_at dest: mgr_resume_selected pending_ok_mgr_resume)
qed

lemma app_reach_inv: "app_reach a \<Longrightarrow> app_inv a"
proof (induction rule: app_reach.induct)
  case (init s)
  then show ?case
    by (simp add: app_inv_def app_init_def manager_init_def list_init_def list_inv_def handler_defs)
next
  case (step a b)
  from step.hyps(2) step.IH show ?case by (rule app_step_inv)
qed

lemma app_exec_step: "app_exec a x = Some b \<Longrightarrow> app_step a b"
proof (cases x)
  case (FormAct e)
  moreover assume "app_exec a x = Some b"
  ultimately show ?thesis
    by (auto split: if_splits sum.splits intro: app_step.form_event)
next
  case (ListAct e)
  moreover assume "app_exec a x = Some b"
  ultimately show ?thesis
    by (auto split: if_splits option.splits intro: app_step.list_event)
next
  case (Serve k)
  moreover assume "app_exec a x = Some b"
  ultimately show ?thesis
    by (auto split: if_splits pending.splits prod.splits intro: app_step.serve_get app_step.serve_mut)
next
  case (Lose k)
  moreover assume "app_exec a x = Some b"
  ultimately show ?thesis
    by (auto split: if_splits pending.splits sum.splits
             intro: app_step.lose_get app_step.lose_mut app_step.lose_get_reply app_step.lose_mut_reply)
next
  case (Deliver k)
  moreover assume "app_exec a x = Some b"
  ultimately show ?thesis
    by (auto split: if_splits pending.splits prod.splits intro: app_step.deliver_get app_step.deliver_mut)
qed

lemma app_step_exec: "app_step a b \<Longrightarrow> \<exists>x. app_exec a x = Some b"
proof (induction rule: app_step.induct)
  case (form_event a e d' out)
  then show ?case by (intro exI [of _ "FormAct e"]) simp
next
  case (list_event a e l' outs)
  then show ?case by (intro exI [of _ "ListAct e"]) simp
next
  case (serve_get k a)
  then show ?case by (intro exI [of _ "Serve k"]) simp
next
  case (serve_mut k a c r res s')
  then show ?case by (intro exI [of _ "Serve k"]) simp
next
  case (lose_get k a)
  then show ?case by (intro exI [of _ "Lose k"]) simp
next
  case (lose_mut k a c r)
  then show ?case by (intro exI [of _ "Lose k"]) simp
next
  case (lose_get_reply k a ps)
  then show ?case by (intro exI [of _ "Lose k"]) simp
next
  case (lose_mut_reply k a c u)
  then show ?case by (intro exI [of _ "Lose k"]) simp
next
  case (deliver_get k a r)
  then show ?case by (intro exI [of _ "Deliver k"]) simp
next
  case (deliver_mut k a c r m' new)
  then show ?case by (intro exI [of _ "Deliver k"]) simp
qed

text \<open>The executable step is the step relation.\<close>

lemma app_step_iff_exec: "app_step a b \<longleftrightarrow> (\<exists>x. app_exec a x = Some b)"
  using app_exec_step app_step_exec by blast

lemma app_run_steps: "app_run a xs = Some b \<Longrightarrow> app_step\<^sup>*\<^sup>* a b"
proof (induction xs arbitrary: a)
  case Nil
  then show ?case by simp
next
  case (Cons x xs)
  then obtain a' where "app_exec a x = Some a'" and "app_run a' xs = Some b"
    by (auto split: option.splits)
  then show ?case using Cons.IH by (meson app_exec_step converse_rtranclp_into_rtranclp)
qed


lemma app_reach_steps: "app_step\<^sup>*\<^sup>* a b \<Longrightarrow> app_reach a \<Longrightarrow> app_reach b"
  by (induction rule: rtranclp_induct) (auto intro: app_reach.step)

lemma mgr_resume_new_cases: "mgr_resume c r m = (m', new) \<Longrightarrow> new = [] \<or> new = [GetSent]"
  by (cases c; cases r) (auto simp: handler_defs)

lemma pending_weight_pos [simp]: "pending_weight p \<noteq> 0"
  by (cases p) simp_all

lemma net_action_weight:
  assumes "is_net_action x" and "app_exec a x = Some b"
  shows "net_weight b < net_weight a"
proof (cases x)
  case (Serve k)
  with assms(2) have k: "k < length (net a)" by (simp split: if_splits)
  show ?thesis
  proof (cases "net a ! k")
    case GetSent
    with Serve assms(2) k show ?thesis
      using sum_list_map_update [OF k, of pending_weight "GetAnswered (serve_get (srv a))"] by (auto simp: net_weight_def)
  next
    case (MutSent c r)
    obtain res s' where res: "serve_mutation r (srv a) = (res, s')" by fastforce
    with Serve MutSent assms(2) k show ?thesis
      using sum_list_map_update [OF k, of pending_weight "MutAnswered c res"] by (auto simp: net_weight_def)
  qed (use Serve assms(2) k in simp_all)
next
  case (Deliver k)
  with assms(2) have k: "k < length (net a)" by (simp split: if_splits)
  show ?thesis
  proof (cases "net a ! k")
    case (GetAnswered r)
    with Deliver assms(2) k show ?thesis
      using sum_list_map_remove_at [OF k, of pending_weight] by (auto simp: net_weight_def)
  next
    case (MutAnswered c r)
    obtain m' new where res: "mgr_resume c r (mgr a) = (m', new)" by fastforce
    then have "new = [] \<or> new = [GetSent]" by (rule mgr_resume_new_cases)
    with Deliver MutAnswered assms(2) k res show ?thesis
      using sum_list_map_remove_at [OF k, of pending_weight] by (auto simp: net_weight_def)
  qed (use Deliver assms(2) k in simp_all)
qed (use assms in simp_all)

lemma head_action_progress:
  assumes "net a = p # ps"
  shows "\<exists>b. app_exec a (head_action p) = Some b"
proof (cases p)
  case (MutSent c r)
  then show ?thesis using assms by (simp split: prod.split)
next
  case (MutAnswered c r)
  then show ?thesis using assms by (simp split: prod.split)
qed (use assms in simp_all)

lemma is_net_head_action [simp]: "is_net_action (head_action p)"
  by (cases p) simp_all

lemma net_run_bound:
  "list_all is_net_action acts \<Longrightarrow> app_run a acts = Some b \<Longrightarrow> length acts \<le> net_weight a"
proof (induction acts arbitrary: a)
  case Nil
  then show ?case by simp
next
  case (Cons x xs)
  then obtain c where c: "app_exec a x = Some c" and r: "app_run c xs = Some b"
    by (auto split: option.splits)
  from Cons.prems(1) have "is_net_action x" by simp
  from this c have "net_weight c < net_weight a" by (rule net_action_weight)
  with Cons.IH [of c] Cons.prems(1) r show ?case by simp
qed

lemma settle_drains: "net_weight a \<le> n \<Longrightarrow> \<exists>b. settle n a = Some b \<and> net b = []"
proof (induction n arbitrary: a)
  case 0
  then show ?case by (cases "net a") (simp_all add: net_weight_def)
next
  case (Suc n)
  show ?case
  proof (cases "net a")
    case (Cons p ps)
    then obtain b where b: "app_exec a (head_action p) = Some b"
      using head_action_progress by blast
    then have "net_weight b < net_weight a" by (rule net_action_weight [OF is_net_head_action])
    with Suc.prems Suc.IH [of b] b Cons show ?thesis by simp
  qed simp
qed

lemma settle_run: "settle n a = Some b \<Longrightarrow> \<exists>acts. list_all is_net_action acts \<and> app_run a acts = Some b"
proof (induction n arbitrary: a)
  case 0
  then show ?case by (intro exI [of _ "[]"]) (simp split: if_splits)
next
  case (Suc n)
  show ?case
  proof (cases "net a")
    case Nil
    with Suc.prems show ?thesis by (intro exI [of _ "[]"]) simp
  next
    case (Cons p ps)
    with Suc.prems obtain c where c: "app_exec a (head_action p) = Some c" and s: "settle n c = Some b"
      by (auto split: option.splits)
    from Suc.IH [OF s] obtain acts where "list_all is_net_action acts" "app_run c acts = Some b" by blast
    with c show ?thesis by (intro exI [of _ "head_action p # acts"]) simp
  qed
qed

lemma user_step_requests:
  assumes "net a = []" and "app_exec a x = Some b"
  shows "mgr b = mgr a \<and> srv b = srv a \<and> (net b = [] \<or> (\<exists>c r. net b = [MutSent c r]))"
proof (cases x)
  case (FormAct e)
  with assms obtain d' out where "form_step (form a) e = Inr (d', out)"
    and b: "b = a\<lparr>form := d', net := submit_call out (mgr a)\<rparr>"
    by (auto split: if_splits sum.splits)
  then show ?thesis by (cases out) (simp_all add: handler_defs)
next
  case (ListAct e)
  with assms obtain l' outs where d: "list_dispatch (lst a) e = Some (l', outs)"
    and b: "b = a\<lparr>lst := l', net := concat (map list_call outs)\<rparr>"
    by (auto split: if_splits option.splits)
  from d b show ?thesis
    by (cases e) (auto simp: handler_defs split: prod.splits)
qed (use assms in simp_all)

subsection \<open>Properties of the application\<close>

text \<open>
  C16. In every reachable state nothing is selected for editing (\<open>BlogList\<close> never
  calls the \<open>onEdit\<close> it is given), so every submission of the form is a
  \<open>POST /blogs\<close>: the update branch of \<open>handleCreateOrUpdateBlog\<close> is dead.
\<close>

theorem every_submit_creates:
  assumes "app_reach a"
  shows "selectedBlog (mgr a) = None \<and> handleCreateOrUpdateBlog d (mgr a) = [MutSent KSave (PostBlog d)]"
proof -
  from app_reach_inv [OF assms] have "selectedBlog (mgr a) = None" by (simp add: app_inv_def)
  then show ?thesis by (simp add: handler_defs)
qed

text \<open>
  C17. In every reachable state the posts the manager holds (and passes to the list)
  have distinct ids, and the server keeps its own invariant: the hypothesis of C1 holds
  for the running application.
\<close>

theorem reachable_ids_distinct:
  "app_reach a \<Longrightarrow> distinct (map post_id (blogs (mgr a))) \<and> server_inv (srv a)"
  using app_reach_inv [of a] by (simp add: app_inv_def)

text \<open>
  C18. Delete then refresh: from any state with no request in flight, a click on an
  offered Delete button of a post the server stores, the DELETE being served and its
  refresh completing, ends with no request in flight and the post gone from the
  manager's list, which equals the server's, whatever post was expanded or edited.
\<close>

theorem delete_then_refresh:
  assumes "net a = []" and "list_enabled (blogs (mgr a)) (lst a) (ClickDelete i)"
    and "i \<in> post_id ` set (stored (srv a))"
  shows "\<exists>b. app_run a [ListAct (ClickDelete i), Serve 0, Deliver 0, Serve 0, Deliver 0] = Some b
           \<and> net b = [] \<and> i \<notin> post_id ` set (blogs (mgr b)) \<and> blogs (mgr b) = stored (srv b)"
  using assms by (simp add: handler_defs serve_get_def remove_at_def)


text \<open>
  C19. Round trip: from a reachable state with no request in flight, submitting a
  valid form and letting the POST and the refresh it triggers complete leaves the form
  empty and the manager holding the server's previous posts followed by the new one,
  whose title, author and sections (their number, order and fields) are exactly the
  submitted ones.
\<close>

theorem create_roundtrip:
  assumes "app_reach a" and "net a = []" and "form_valid (form a)"
  shows "\<exists>b. app_run a [FormAct FormSubmitClick, Serve 0, Deliver 0, Serve 0, Deliver 0] = Some b
           \<and> net b = [] \<and> form b = empty_blog
           \<and> blogs (mgr b) = stored (srv a) @ [new_post (form a) (srv a)]
           \<and> post_fields (last (blogs (mgr b))) = form a"
proof -
  from app_reach_inv [OF assms(1)] have "selectedBlog (mgr a) = None" by (simp add: app_inv_def)
  with assms(2,3) show ?thesis
    by (simp add: handler_defs serve_get_def remove_at_def empty_blog_def)
qed
text \<open>
  C20. The refresh is not ordered: with no request lost, there is a run after which
  every request has completed, the server no longer stores post 1 (deleted, and its
  refresh delivered), and the list still shows post 1, because an older refresh, served
  before the delete, was delivered last.
\<close>

theorem stale_refresh_shows_deleted:
  "\<exists>s acts a. server_inv s \<and> app_run (app_init s) acts = Some a \<and> list_all (\<lambda>x. \<not> is_loss x) acts
     \<and> net a = [] \<and> 1 \<notin> post_id ` set (stored (srv a)) \<and> 1 \<in> post_id ` set (blogs (mgr a))"
proof -
  have "server_inv server_a" by (simp add: server_inv_def)
  moreover have "\<exists>a. app_run (app_init server_a) stale_trace = Some a \<and> net a = []
        \<and> 1 \<notin> post_id ` set (stored (srv a)) \<and> 1 \<in> post_id ` set (blogs (mgr a))"
    by (simp add: app_init_def manager_init_def list_init_def blog_form_init_def form_initial_data_def
                  handler_defs editor_shown_def serve_get_def remove_at_def replace_fields_def)
  moreover have "list_all (\<lambda>x. \<not> is_loss x) stale_trace" by simp
  ultimately show ?thesis by blast
qed

text \<open>
  C21. The requests in flight settle by themselves, and without looping: from any
  state, a run of server and browser steps alone (no user event, no request lost)
  delivers every request in flight; and every such run has at most \<^term>\<open>net_weight a\<close>
  steps, so no chain of responses and the refreshes they start goes on forever (each
  delivered mutation starts at most one GET, and a delivered GET starts nothing).
\<close>

theorem requests_drain:
  "(\<exists>acts b. list_all is_net_action acts \<and> app_run a acts = Some b \<and> net b = [])
   \<and> (\<forall>acts b. list_all is_net_action acts \<and> app_run a acts = Some b \<longrightarrow> length acts \<le> net_weight a)"
proof
  obtain b where "settle (net_weight a) a = Some b" "net b = []"
    using settle_drains [of a "net_weight a"] by blast
  with settle_run show "\<exists>acts b. list_all is_net_action acts \<and> app_run a acts = Some b \<and> net b = []"
    by blast
qed (auto intro: net_run_bound)

text \<open>
  C22. With a reliable network that handles requests in the order they were sent,
  the list stays in sync with the server: from a state with no request in flight in
  which the manager holds the server's posts, after any user event (a form or list
  event that the view offers) and the requests it starts (a POST, PUT or DELETE and, if
  that succeeds, its refresh), the requests settle and the manager again holds exactly
  the server's posts, whether the mutation succeeded or was rejected.
\<close>

theorem sequential_sync:
  assumes "net a = []" and "blogs (mgr a) = stored (srv a)" and "app_exec a x = Some b"
  shows "\<exists>c. settle (net_weight b) b = Some c \<and> net c = [] \<and> blogs (mgr c) = stored (srv c)"
proof -
  from user_step_requests [OF assms(1,3)] have m: "mgr b = mgr a" and s: "srv b = srv a"
    and n: "net b = [] \<or> (\<exists>c r. net b = [MutSent c r])" by blast+
  from n show ?thesis
  proof
    assume "net b = []"
    with m s assms(2) show ?thesis by (simp add: net_weight_def)
  next
    assume "\<exists>c r. net b = [MutSent c r]"
    then obtain c r where nb: "net b = [MutSent c r]" by blast
    obtain res s' where sm: "serve_mutation r (srv b) = (res, s')" by fastforce
    show ?thesis
    proof (cases res)
      case (Inl e)
      with sm have "s' = srv b" by (simp add: serve_mutation_failed)
      with Inl sm nb m s assms(2) show ?thesis
        by (simp add: net_weight_def numeral_eq_Suc remove_at_def)
    next
      case (Inr u)
      obtain m' new where mr: "mgr_resume c (Inr u) (mgr b) = (m', new)" by fastforce
      then have "new = [GetSent]" by (rule mgr_resume_success)
      with Inr sm mr nb show ?thesis
        by (simp add: net_weight_def numeral_eq_Suc remove_at_def handler_defs serve_get_def)
    qed
  qed
qed

text \<open>
  C27. Inline update round trip: from a state with no request in flight, Edit on a
  listed post the server stores, a new title typed into the buffer, Save, the PUT and
  its refresh end with no request in flight, the row expanded and out of edit mode, and
  the manager holding the server's posts in which that post's title, author and
  sections were replaced wholesale by the buffer's (the post's listed fields with the
  new title).
\<close>

theorem update_roundtrip:
  assumes "net a = []" and "b \<in> set (blogs (mgr a))" and "\<not> editMode (lst a)"
    and "post_id b \<in> post_id ` set (stored (srv a))"
  shows "\<exists>c. app_run a [ListAct (ClickEdit b), ListAct (ChangeField Title t), ListAct (ClickSave (post_id b)),
                      Serve 0, Deliver 0, Serve 0, Deliver 0] = Some c
           \<and> net c = []
           \<and> blogs (mgr c) = map (replace_fields (post_id b) (post_fields b\<lparr>title := t\<rparr>)) (stored (srv a))
           \<and> \<not> editMode (lst c) \<and> activeBlogId (lst c) = Some (post_id b)"
  using assms by (auto simp: handler_defs editor_shown_def serve_get_def remove_at_def)

text \<open>
  C28. A lost refresh makes the next edit undo a saved one: from a state with no
  request in flight, if the user saves a new title \<open>t\<close> for a listed post the server
  stores, the PUT succeeds (the server stores \<open>t\<close>) but its refresh fails, then the
  list still shows the old copy of the post; a later edit of another field is seeded
  from that copy and, since a PUT replaces title, author and sections wholesale, the
  server ends up with the old copy's title and the new author: \<open>t\<close> is gone although
  the user never reverted it, and after the second refresh the list agrees with it.
\<close>

theorem stale_edit_reverts_saved_title:
  assumes "net a = []" and "b \<in> set (blogs (mgr a))" and "\<not> editMode (lst a)"
    and "post_id b \<in> post_id ` set (stored (srv a))"
  shows "\<exists>c d. app_run a [ListAct (ClickEdit b), ListAct (ChangeField Title t), ListAct (ClickSave (post_id b)),
                          Serve 0, Deliver 0, Lose 0, Deliver 0] = Some c
           \<and> net c = [] \<and> blogs (mgr c) = blogs (mgr a)
           \<and> stored (srv c) = map (replace_fields (post_id b) (post_fields b\<lparr>title := t\<rparr>)) (stored (srv a))
           \<and> app_run c [ListAct (ClickEdit b), ListAct (ChangeField Author u), ListAct (ClickSave (post_id b)),
                        Serve 0, Deliver 0, Serve 0, Deliver 0] = Some d
           \<and> net d = [] \<and> blogs (mgr d) = stored (srv d)
           \<and> stored (srv d) = map (replace_fields (post_id b) (post_fields b\<lparr>author := u\<rparr>)) (stored (srv a))"
  using assms by (auto simp: handler_defs editor_shown_def serve_get_def remove_at_def)

subsection \<open>Witnesses\<close>

abbreviation loaded_a :: app where
  "loaded_a \<equiv> the (app_run (app_init server_a) [Serve 0, Deliver 0])"

lemma app_reach_loaded_a: "app_reach loaded_a"
proof -
  have run: "app_run (app_init server_a) [Serve 0, Deliver 0] = Some loaded_a"
    by (simp add: app_init_def handler_defs serve_get_def remove_at_def)
  have "app_reach (app_init server_a)" by (rule app_reach.init) (simp add: server_inv_def)
  with app_run_steps [OF run] show ?thesis by (rule app_reach_steps)
qed

lemma every_submit_creates_witness:
  "app_reach loaded_a \<and> selectedBlog (mgr loaded_a) = None
   \<and> handleCreateOrUpdateBlog sample_draft (mgr loaded_a) = [MutSent KSave (PostBlog sample_draft)]"
  using app_reach_loaded_a every_submit_creates [OF app_reach_loaded_a, of sample_draft] by simp

lemma reachable_ids_distinct_witness:
  "app_reach loaded_a \<and> distinct (map post_id (blogs (mgr loaded_a))) \<and> server_inv (srv loaded_a)"
  using app_reach_loaded_a reachable_ids_distinct [OF app_reach_loaded_a] by simp

lemma delete_then_refresh_witness:
  "net loaded_a = [] \<and> list_enabled (blogs (mgr loaded_a)) (lst loaded_a) (ClickDelete 1)
   \<and> 1 \<in> post_id ` set (stored (srv loaded_a))
   \<and> (\<exists>b. app_run loaded_a [ListAct (ClickDelete 1), Serve 0, Deliver 0, Serve 0, Deliver 0] = Some b
          \<and> net b = [] \<and> 1 \<notin> post_id ` set (blogs (mgr b)) \<and> blogs (mgr b) = stored (srv b))"
proof -
  have h: "net loaded_a = []" "list_enabled (blogs (mgr loaded_a)) (lst loaded_a) (ClickDelete 1)"
          "1 \<in> post_id ` set (stored (srv loaded_a))"
    by (simp_all add: app_init_def handler_defs serve_get_def remove_at_def list_init_def)
  show ?thesis using h delete_then_refresh [OF h] by simp
qed

abbreviation filled_a :: app where
  "filled_a \<equiv> the (app_run loaded_a [FormAct (FormSetTitle ''Dholera''), FormAct (FormSetAuthor ''Ann'')])"

lemma create_roundtrip_witness:
  "app_reach filled_a \<and> net filled_a = [] \<and> form_valid (form filled_a)
   \<and> (\<exists>b. app_run filled_a [FormAct FormSubmitClick, Serve 0, Deliver 0, Serve 0, Deliver 0] = Some b
          \<and> net b = [] \<and> form b = empty_blog
          \<and> blogs (mgr b) = stored (srv filled_a) @ [new_post (form filled_a) (srv filled_a)]
          \<and> post_fields (last (blogs (mgr b))) = form filled_a)"
proof -
  have run: "app_run loaded_a [FormAct (FormSetTitle ''Dholera''), FormAct (FormSetAuthor ''Ann'')] = Some filled_a"
    by (simp add: app_init_def handler_defs serve_get_def remove_at_def blog_form_init_def form_initial_data_def manager_init_def)
  have r: "app_reach filled_a"
    by (rule app_reach_steps [OF app_run_steps [OF run] app_reach_loaded_a])
  have n: "net filled_a = []" "form_valid (form filled_a)"
    by (simp_all add: app_init_def handler_defs serve_get_def remove_at_def blog_form_init_def
                      form_initial_data_def manager_init_def form_valid_def)
  note c = create_roundtrip [OF r n]
  from r n c show ?thesis by blast
qed

lemma update_roundtrip_witness:
  "net loaded_a = [] \<and> sample_post_a \<in> set (blogs (mgr loaded_a)) \<and> \<not> editMode (lst loaded_a)
   \<and> 1 \<in> post_id ` set (stored (srv loaded_a))
   \<and> (\<exists>c. app_run loaded_a [ListAct (ClickEdit sample_post_a), ListAct (ChangeField Title ''Plots''),
                            ListAct (ClickSave 1), Serve 0, Deliver 0, Serve 0, Deliver 0] = Some c
          \<and> net c = []
          \<and> blogs (mgr c) = map (replace_fields 1 (post_fields sample_post_a\<lparr>title := ''Plots''\<rparr>))
                               (stored (srv loaded_a))
          \<and> \<not> editMode (lst c) \<and> activeBlogId (lst c) = Some 1)"
proof -
  have h: "net loaded_a = []" "sample_post_a \<in> set (blogs (mgr loaded_a))" "\<not> editMode (lst loaded_a)"
          "post_id sample_post_a \<in> post_id ` set (stored (srv loaded_a))"
    by (simp_all add: app_init_def handler_defs serve_get_def remove_at_def list_init_def)
  note c = update_roundtrip [OF h, of "''Plots''"]
  from h c show ?thesis by simp
qed

lemma requests_drain_witness:
  "list_all is_net_action [Serve 0, Deliver 0] \<and> app_run (app_init server_a) [Serve 0, Deliver 0] = Some loaded_a
   \<and> net loaded_a = [] \<and> length [Serve 0, Deliver 0] \<le> net_weight (app_init server_a)"
proof -
  have r: "app_run (app_init server_a) [Serve 0, Deliver 0] = Some loaded_a"
    by (simp add: app_init_def handler_defs serve_get_def remove_at_def)
  have n: "net loaded_a = []" by (simp add: app_init_def handler_defs serve_get_def remove_at_def)
  have "length [Serve 0, Deliver 0] \<le> net_weight (app_init server_a)"
    by (rule requests_drain [of "app_init server_a", THEN conjunct2, rule_format]) (use r in simp)
  with r n show ?thesis by simp
qed

lemma sequential_sync_witness:
  "net loaded_a = [] \<and> blogs (mgr loaded_a) = stored (srv loaded_a)
   \<and> app_exec loaded_a (ListAct (ClickDelete 1)) = Some (the (app_exec loaded_a (ListAct (ClickDelete 1))))
   \<and> (\<exists>c. settle (net_weight (the (app_exec loaded_a (ListAct (ClickDelete 1)))))
                 (the (app_exec loaded_a (ListAct (ClickDelete 1)))) = Some c
          \<and> net c = [] \<and> blogs (mgr c) = stored (srv c))"
proof -
  have h: "net loaded_a = []" "blogs (mgr loaded_a) = stored (srv loaded_a)"
          "app_exec loaded_a (ListAct (ClickDelete 1)) = Some (the (app_exec loaded_a (ListAct (ClickDelete 1))))"
    by (simp_all add: app_init_def handler_defs serve_get_def remove_at_def list_init_def)
  show ?thesis using h sequential_sync [OF h] by simp
qed

lemma stale_edit_reverts_saved_title_witness:
  "net loaded_a = [] \<and> sample_post_a \<in> set (blogs (mgr loaded_a)) \<and> \<not> editMode (lst loaded_a)
   \<and> 1 \<in> post_id ` set (stored (srv loaded_a))
   \<and> (\<exists>c d. app_run loaded_a [ListAct (ClickEdit sample_post_a), ListAct (ChangeField Title ''New''),
                              ListAct (ClickSave 1), Serve 0, Deliver 0, Lose 0, Deliver 0] = Some c
           \<and> net c = [] \<and> blogs (mgr c) = blogs (mgr loaded_a)
           \<and> stored (srv c) = map (replace_fields 1 (post_fields sample_post_a\<lparr>title := ''New''\<rparr>)) (stored (srv loaded_a))
           \<and> app_run c [ListAct (ClickEdit sample_post_a), ListAct (ChangeField Author ''Bo''),
                        ListAct (ClickSave 1), Serve 0, Deliver 0, Serve 0, Deliver 0] = Some d
           \<and> net d = [] \<and> blogs (mgr d) = stored (srv d)
           \<and> stored (srv d) = map (replace_fields 1 (post_fields sample_post_a\<lparr>author := ''Bo''\<rparr>)) (stored (srv loaded_a)))"
proof -
  have h: "net loaded_a = []" "sample_post_a \<in> set (blogs (mgr loaded_a))" "\<not> editMode (lst loaded_a)"
          "post_id sample_post_a \<in> post_id ` set (stored (srv loaded_a))"
    by (simp_all add: app_init_def handler_defs serve_get_def remove_at_def list_init_def)
  note c = stale_edit_reverts_saved_title [OF h, of "''New''" "''Bo''"]
  from h c show ?thesis by simp
qed

end
