(* ===== verification/Blog_Heap.thy ===== *)
theory Blog_Heap
  imports Blog_Form Blog_List
begin

text \<open>
  Section objects with their identity. In JavaScript a \<open>content\<close> array holds
  references to section objects, and \<open>BlogForm.js\<close> initialises its \<open>content\<close> state
  with \<open>initialData.content\<close> itself, so when \<open>initialData\<close> is a stored post the form
  and the post share their section objects. \<open>BlogForm.handleContentChange\<close> copies the
  array but assigns into the object (\<open>updatedContent[index][field] = value\<close>), while
  \<open>BlogList.handleContentChange\<close> replaces the object by a new one
  (\<open>{ ...updatedContent[index], [field]: value }\<close>). Here the objects live in an
  explicit heap, arrays are lists of references, and an object literal allocates.
\<close>

type_synonym ref = nat

record js_heap =
  objs :: "ref \<Rightarrow> content_section option"
  next_ref :: ref

text \<open>Every reference at or past \<open>next_ref\<close> is unallocated.\<close>

definition heap_ok :: "js_heap \<Rightarrow> bool" where
  "heap_ok h = (\<forall>r. next_ref h \<le> r \<longrightarrow> objs h r = None)"

definition alloc :: "content_section \<Rightarrow> js_heap \<Rightarrow> ref \<times> js_heap" where
  "alloc s h = (next_ref h, h\<lparr>objs := (objs h)(next_ref h \<mapsto> s), next_ref := Suc (next_ref h)\<rparr>)"

text \<open>The sections an array of references shows, if every reference is allocated.\<close>

definition deref :: "js_heap \<Rightarrow> ref list \<Rightarrow> content_section list option" where
  "deref h rs = those (map (objs h) rs)"

text \<open>The form's state with \<open>content\<close> as an array of references.\<close>

record form_refs =
  fr_title :: string
  fr_author :: string
  fr_content :: "ref list"

text \<open>\<open>initialData\<close> as title, author and the reference array of its \<open>content\<close>.\<close>

definition heap_form_init :: "(string \<times> string \<times> ref list) option \<Rightarrow> form_refs" where
  "heap_form_init init =
     (case init of
        None \<Rightarrow> \<lparr>fr_title = '''', fr_author = '''', fr_content = []\<rparr>
      | Some (t, a, rs) \<Rightarrow> \<lparr>fr_title = t, fr_author = a, fr_content = rs\<rparr>)"

definition heap_handleAddContent :: "form_refs \<Rightarrow> js_heap \<Rightarrow> form_refs \<times> js_heap" where
  "heap_handleAddContent fr h =
     (let (r, h') = alloc empty_section h in (fr\<lparr>fr_content := fr_content fr @ [r]\<rparr>, h'))"

definition heap_form_handleContentChange ::
  "nat \<Rightarrow> section_field \<Rightarrow> string \<Rightarrow> form_refs \<Rightarrow> js_heap \<Rightarrow> js_error + js_heap" where
  "heap_form_handleContentChange i f v fr h =
     (let rs = fr_content fr in
      if i < length rs then
        (case objs h (rs ! i) of
           Some s \<Rightarrow> Inr (h\<lparr>objs := (objs h)(rs ! i \<mapsto> set_section_field f v s)\<rparr>)
         | None \<Rightarrow> Inl TypeError)
      else Inl TypeError)"

definition heap_list_handleContentChange ::
  "nat \<Rightarrow> section_field \<Rightarrow> string \<Rightarrow> ref list \<Rightarrow> js_heap \<Rightarrow> (ref list \<times> js_heap) option" where
  "heap_list_handleContentChange i f v rs h =
     (if i < length rs then
        (case objs h (rs ! i) of
           Some s \<Rightarrow> (let (r, h') = alloc (set_section_field f v s) h in Some (rs[i := r], h'))
         | None \<Rightarrow> None)
      else None)"

subsection \<open>Lemmas\<close>

lemma deref_Some_iff:
  "deref h rs = Some cs \<longleftrightarrow> length cs = length rs \<and> (\<forall>j < length rs. objs h (rs ! j) = Some (cs ! j))"
  by (auto simp: deref_def those_eq_Some list_eq_iff_nth_eq)

text \<open>
  C24. Refinement: on a content array whose references are distinct and allocated, the
  in-place edit of \<open>BlogForm.handleContentChange\<close> on the heap shows, through the
  array, exactly the sections the value model \<open>form_handleContentChange\<close> computes.
\<close>

theorem heap_form_change_refines:
  assumes "distinct (fr_content fr)" and "deref h (fr_content fr) = Some cs"
    and "form_handleContentChange i f v \<lparr>title = fr_title fr, author = fr_author fr, content = cs\<rparr> = Inr d'"
  shows "\<exists>h'. heap_form_handleContentChange i f v fr h = Inr h' \<and> deref h' (fr_content fr) = Some (content d')"
proof -
  let ?rs = "fr_content fr"
  from assms(3) have i: "i < length cs" and d': "content d' = cs[i := set_section_field f v (cs ! i)]"
    by (auto simp: form_handleContentChange_def split: if_splits)
  from assms(2) have len: "length cs = length ?rs" and at: "\<forall>j < length ?rs. objs h (?rs ! j) = Some (cs ! j)"
    by (auto simp: deref_Some_iff)
  with i have obj: "objs h (?rs ! i) = Some (cs ! i)" by simp
  define h' where "h' = h\<lparr>objs := (objs h)(?rs ! i \<mapsto> set_section_field f v (cs ! i))\<rparr>"
  have run: "heap_form_handleContentChange i f v fr h = Inr h'"
    using i len obj by (simp add: heap_form_handleContentChange_def h'_def)
  have "\<forall>j < length ?rs. objs h' (?rs ! j) = Some (cs[i := set_section_field f v (cs ! i)] ! j)"
  proof (intro allI impI)
    fix j assume j: "j < length ?rs"
    show "objs h' (?rs ! j) = Some (cs[i := set_section_field f v (cs ! i)] ! j)"
    proof (cases "j = i")
      case True then show ?thesis using len i by (simp add: h'_def)
    next
      case False
      with assms(1) j i len have "?rs ! j \<noteq> ?rs ! i" by (simp add: nth_eq_iff_index_eq)
      then show ?thesis using False at j by (simp add: h'_def)
    qed
  qed
  then have "deref h' ?rs = Some (content d')" using len d' by (simp add: deref_Some_iff)
  with run show ?thesis by blast
qed

text \<open>
  C25. Aliasing: a form initialised from a post's \<open>initialData\<close> shares the post's
  section objects, so editing a section field in the form changes the sections the
  post's own array shows, before (and without) any submit.
\<close>

theorem form_edit_mutates_initial_data:
  assumes "i < length qs" and "objs h (qs ! i) = Some s" and "section_field_value f s \<noteq> v"
    and "deref h qs = Some cs"
  shows "\<exists>h' cs'. heap_form_handleContentChange i f v (heap_form_init (Some (t, a, qs))) h = Inr h'
           \<and> deref h' qs = Some cs' \<and> cs' \<noteq> cs \<and> section_field_value f (cs' ! i) = v"
proof -
  define h' where "h' = h\<lparr>objs := (objs h)(qs ! i \<mapsto> set_section_field f v s)\<rparr>"
  have run: "heap_form_handleContentChange i f v (heap_form_init (Some (t, a, qs))) h = Inr h'"
    using assms(1,2) by (simp add: heap_form_handleContentChange_def heap_form_init_def h'_def)
  from assms(4) have len: "length cs = length qs" and at: "\<forall>j < length qs. objs h (qs ! j) = Some (cs ! j)"
    by (auto simp: deref_Some_iff)
  define cs' where "cs' = map (\<lambda>r. the (objs h' r)) qs"
  have at': "\<forall>j < length qs. objs h' (qs ! j) = Some (cs' ! j)"
    using at by (auto simp: cs'_def h'_def)
  then have "deref h' qs = Some cs'" by (simp add: deref_Some_iff cs'_def)
  moreover have "section_field_value f (cs' ! i) = v"
    using assms(1) by (simp add: cs'_def h'_def)
  moreover have "cs ! i = s" using at assms(1,2) by simp
  then have "cs' \<noteq> cs" using \<open>section_field_value f (cs' ! i) = v\<close> assms(3) by auto
  ultimately show ?thesis using run by blast
qed

text \<open>
  C26. The list's section edit never writes into an existing object: it allocates a
  new section with the changed field, puts it at the edited index of a new array and
  leaves every other index and every allocated object (so every stored post's
  sections) as they were.
\<close>

theorem list_edit_allocates:
  assumes "heap_ok h" and "heap_list_handleContentChange i f v rs h = Some (rs', h')"
  shows "heap_ok h' \<and> (\<forall>r. objs h r \<noteq> None \<longrightarrow> objs h' r = objs h r)
         \<and> length rs' = length rs \<and> (\<forall>j. j \<noteq> i \<longrightarrow> rs' ! j = rs ! j)
         \<and> map_option (section_field_value f) (objs h' (rs' ! i)) = Some v"
  using assms
  by (auto simp: heap_list_handleContentChange_def alloc_def heap_ok_def split: if_splits option.splits)

subsection \<open>Witnesses\<close>

abbreviation heap_a :: js_heap where
  "heap_a \<equiv> \<lparr>objs = [0 \<mapsto> empty_section], next_ref = 1\<rparr>"

lemma heap_form_change_refines_witness:
  "distinct (fr_content (heap_form_init (Some (''Dholera'', ''Ann'', [0]))))
   \<and> deref heap_a (fr_content (heap_form_init (Some (''Dholera'', ''Ann'', [0])))) = Some [empty_section]
   \<and> form_handleContentChange 0 Heading ''Intro''
       \<lparr>title = ''Dholera'', author = ''Ann'', content = [empty_section]\<rparr>
       = Inr \<lparr>title = ''Dholera'', author = ''Ann'', content = [empty_section\<lparr>heading := ''Intro''\<rparr>]\<rparr>
   \<and> (\<exists>h'. heap_form_handleContentChange 0 Heading ''Intro''
              (heap_form_init (Some (''Dholera'', ''Ann'', [0]))) heap_a = Inr h'
          \<and> deref h' [0] = Some [empty_section\<lparr>heading := ''Intro''\<rparr>])"
proof -
  have h: "distinct (fr_content (heap_form_init (Some (''Dholera'', ''Ann'', [0]))))"
          "deref heap_a (fr_content (heap_form_init (Some (''Dholera'', ''Ann'', [0])))) = Some [empty_section]"
          "form_handleContentChange 0 Heading ''Intro''
             \<lparr>title = fr_title (heap_form_init (Some (''Dholera'', ''Ann'', [0]))),
              author = fr_author (heap_form_init (Some (''Dholera'', ''Ann'', [0]))),
              content = [empty_section]\<rparr>
           = Inr \<lparr>title = ''Dholera'', author = ''Ann'', content = [empty_section\<lparr>heading := ''Intro''\<rparr>]\<rparr>"
    by (simp_all add: heap_form_init_def deref_def handler_defs)
  show ?thesis using h heap_form_change_refines [OF h]
    by (simp add: heap_form_init_def deref_def handler_defs)
qed

lemma form_edit_mutates_initial_data_witness:
  "0 < length [0::ref] \<and> objs heap_a 0 = Some empty_section
   \<and> section_field_value Heading empty_section \<noteq> ''Intro'' \<and> deref heap_a [0] = Some [empty_section]
   \<and> (\<exists>h' cs'. heap_form_handleContentChange 0 Heading ''Intro''
                  (heap_form_init (Some (''Dholera'', ''Ann'', [0]))) heap_a = Inr h'
        \<and> deref h' [0] = Some cs' \<and> cs' \<noteq> [empty_section] \<and> section_field_value Heading (cs' ! 0) = ''Intro'')"
proof -
  have h: "0 < length [0::ref]" "objs heap_a ([0] ! 0) = Some empty_section"
          "section_field_value Heading empty_section \<noteq> ''Intro''" "deref heap_a [0] = Some [empty_section]"
    by (simp_all add: empty_section_def deref_def)
  show ?thesis using h form_edit_mutates_initial_data [OF h, of "''Dholera''" "''Ann''"] by simp
qed

lemma list_edit_allocates_witness:
  "heap_ok heap_a
   \<and> heap_list_handleContentChange 0 Heading ''Intro'' [0] heap_a
       = Some ([1], \<lparr>objs = [0 \<mapsto> empty_section, 1 \<mapsto> empty_section\<lparr>heading := ''Intro''\<rparr>], next_ref = 2\<rparr>)
   \<and> objs \<lparr>objs = [0 \<mapsto> empty_section, 1 \<mapsto> empty_section\<lparr>heading := ''Intro''\<rparr>], next_ref = 2\<rparr> 0
       = objs heap_a 0"
proof -
  have h: "heap_ok heap_a"
          "heap_list_handleContentChange 0 Heading ''Intro'' [0] heap_a
             = Some ([1], \<lparr>objs = [0 \<mapsto> empty_section, 1 \<mapsto> empty_section\<lparr>heading := ''Intro''\<rparr>], next_ref = 2\<rparr>)"
    by (simp_all add: heap_ok_def heap_list_handleContentChange_def alloc_def)
  show ?thesis using h list_edit_allocates [OF h] by simp
qed

end
