(* ===== verification/Spec2Isabelle.thy ===== *)
theory Spec2Isabelle
  imports Blog_App Blog_Heap
begin

text \<open>
  \<^bold>\<open>Verification development of the DholeraNagri blog content-management front end.\<close>

  \<^medskip>
  \<^bold>\<open>The program.\<close> A React application (\<open>src/src\<close>) of three components.
  \<open>BlogManager.js\<close> owns the post collection and talks to a remote REST API
  (\<open>GET/POST/PUT/DELETE /blogs\<close>); after every successful mutation it re-fetches the
  whole collection. It renders \<open>BlogForm.js\<close>, a form for composing a new post whose
  \<open>onSubmit\<close> is the manager's create-or-update handler, and \<open>BlogList.js\<close>, which
  renders the collection, expands one post at a time, edits one post inline in a shared
  buffer and calls the manager's \<open>onDelete\<close>/\<open>onUpdate\<close>. \<open>App.js\<close> only renders
  the manager.

  \<^medskip>
  \<^bold>\<open>Theories.\<close>
  \<^item> \<open>Blog_Prelude\<close>: type names (\<open>blog_id\<close>, \<open>timestamp\<close>), the JavaScript built-in
    \<open>Array.prototype.filter\<close> with its index argument (\<open>js_filter_idx\<close>) and its
    removal lemmas, a lemma on lists with unique keys, and the collection
    \<open>handler_defs\<close> of handler definitions the component proofs unfold.
  \<^item> \<open>Blog_Data\<close>: the shared data. A section is the record \<open>content_section\<close>
    (JS field \<open>paragraph\<close> is \<open>paragraph_text\<close>, since \<open>paragraph\<close> is an Isar
    keyword); \<open>blog_data\<close> is \<open>{title, author, content}\<close>; \<open>post\<close> extends it with
    \<open>_id\<close> (\<open>post_id\<close>) and \<open>createdAt\<close>. Computed-key updates
    (\<open>{...s, [field]: value}\<close>) are \<open>set_section_field\<close> and \<open>set_blog_field\<close>.
  \<^item> \<open>Blog_List\<close> (\<open>BlogList.js\<close>): the state record \<open>list_state\<close> (\<open>activeBlogId\<close>,
    \<open>editMode\<close>, \<open>editedBlog\<close>), one definition per handler under the source's name
    (\<open>handleToggleContent\<close>, \<open>handleEditClick\<close>, \<open>handleEditChange\<close>,
    \<open>list_handleContentChange\<close>, \<open>handleAddContentSection\<close>,
    \<open>handleRemoveContentSection\<close>, \<open>list_handleUpdateBlog\<close>, \<open>handleCancelEdit\<close>),
    the render as \<open>blog_list_view\<close>, the DOM events as \<open>list_event\<close> and their
    dispatch \<open>list_dispatch\<close> (the Delete button does not stop propagation, so its
    click also reaches the row's toggle), the events the render offers as
    \<open>list_enabled\<close>, and the reachable states \<open>list_reachable\<close>. The abstract
    specification is the discriminated union \<open>view_state\<close> (\<open>Idle | Expanded |
    Editing\<close>) of the spec's design notes with its step \<open>view_step\<close>; \<open>abs_view\<close>
    maps the code's three variables to it.
  \<^item> \<open>Blog_Form\<close> (\<open>BlogForm.js\<close>): the form state is a \<open>blog_data\<close>;
    \<open>blog_form_init\<close> (the \<open>useState\<close> initialisers), \<open>handleAddContent\<close>,
    \<open>form_handleContentChange\<close> (a \<open>TypeError\<close> out of range), \<open>handleSubmit\<close>
    (emit, then reset), the browser's \<open>required\<close>-field validation \<open>form_valid\<close>, and
    the event step \<open>form_step\<close> with its run \<open>form_run\<close>.
  \<^item> \<open>Blog_Api\<close>: the requests the manager's \<open>axios\<close> calls build (\<open>mutation\<close>; a
    GET is the pending entry \<open>GetSent\<close>), the rejection \<open>request_error\<close>, and the
    server, which is not in the repository and is modelled from the spec's interface:
    a store with never-reused ids (\<open>serve_get\<close>, \<open>serve_mutation\<close>, 404 on an unknown
    id) and its invariant \<open>server_inv\<close>.
  \<^item> \<open>Blog_Manager\<close> (\<open>BlogManager.js\<close>): the record \<open>manager\<close> (\<open>blogs\<close>,
    \<open>selectedBlog\<close>); each \<open>async\<close> handler is split at its \<open>await\<close> into the
    requests it starts (\<open>fetchBlogs\<close>, \<open>handleCreateOrUpdateBlog\<close>,
    \<open>mgr_handleUpdateBlog\<close>, \<open>handleDeleteBlog\<close>) and the continuation run on the
    settled result (\<open>*_resume\<close>, dispatched by \<open>mgr_resume\<close>), with the \<open>catch\<close>
    branch as the \<open>Inl\<close> case; \<open>list_call\<close> and \<open>form_initial_data\<close> are the props
    wiring of the two children.
  \<^item> \<open>Blog_App\<close>: the composed application (\<open>app\<close>: server, manager, form, list,
    requests in flight). \<open>app_step\<close> is an \<open>inductive\<close> relation with one rule per
    kind of step: a form or list event the render offers, the server handling a request,
    the network losing a request or its reply, the browser delivering a settled request
    to its continuation; requests are handled and delivered in any order.
    \<open>app_exec\<close> is the same step as an executable function of a labelled
    \<open>action\<close> (\<open>app_step_iff_exec\<close>), \<open>app_run\<close> runs a list of actions,
    \<open>settle\<close> runs a reliable network that handles the requests in the order they
    were sent, and \<open>app_reach\<close> are the states reachable from mount (\<open>app_init\<close>).
  \<^item> \<open>Blog_Heap\<close>: section objects with identity. A \<open>js_heap\<close> maps references
    to sections, \<open>alloc\<close> is an object literal, and a content array is a list of
    references. The form's state keeps \<open>initialData.content\<close>'s own objects
    (\<open>heap_form_init\<close>), its \<open>handleContentChange\<close> assigns into the object
    (\<open>heap_form_handleContentChange\<close>), and the list's replaces it by a new one
    (\<open>heap_list_handleContentChange\<close>).
  The components interact only through the props: the form's submit and the list's
  \<open>onDelete\<close>/\<open>onUpdate\<close> start manager requests (\<open>submit_call\<close>, \<open>list_call\<close>),
  and a delivered GET replaces the \<open>blogs\<close> the list renders.

  \<^medskip>
  \<^bold>\<open>What is proved.\<close>
  For the list (C1--C8): at most one row renders the editor; every offered event
  refines the \<open>Idle/Expanded/Editing\<close> machine; a body click on the edited post is a
  no-op; Edit reseeds the buffer and shows exactly one editor; edit mode implies an
  active post in every reachable state; no offered event leaves the model; a Delete
  click also toggles its row; a refresh that removes the edited post leaves a stale
  edit mode with no editor and no Edit button, which a body click ends.
  For the form (C9--C15): a valid submit emits the fields and resets the form;
  Submit right after Add Section is blocked by the required paragraph; a section
  edit changes one field only, throws out of range, and is never thrown from the UI;
  a create scenario emits exactly the composed post; edit mode pre-fills the form and
  emits no id.
  For the application (C16--C22, C27) and the manager (C23): nothing is ever selected,
  so every submission is a POST; the listed ids are always distinct (so C1 applies to
  the running program); delete followed by its refresh removes the post from the list;
  create followed by its refresh appends exactly the submitted post (round trip); a
  run without lost requests ends with every request complete and a deleted post still
  listed (last completion wins); server and browser steps alone settle every request
  in flight, and no run of them is longer than the weight of those requests, so the
  refreshes never loop (C21); with requests handled reliably in the order sent, every
  user event from a state where the list equals the server ends, once its requests
  settle, with the list equal to the server again (C22); a settled mutation starts
  exactly one refresh on success and none on failure and never patches the list.
  The inline update round trip (C27) replaces the post wholesale by the buffer; and
  from any state, when the refresh after a saved title is lost, the next edit of the
  post, seeded from the stale list, writes the old title back to the server (C28).
  For the heap (C24--C26): on unshared objects the form's in-place edit is the value
  model's edit (refinement); a form opened on a stored post edits that post's own
  sections before any submit (aliasing); the list's edit allocates and changes no
  existing object.
  Invariants are proved by rule induction over \<open>list_reachable\<close> and
  \<open>app_reach\<close> (\<open>list_inv\<close>, \<open>app_inv\<close>); scenarios and counter-scenarios are
  computed by \<open>simp\<close> over \<open>app_run\<close>.

  \<^medskip>
  \<^bold>\<open>Bounds and fuel.\<close> The program has no loop of its own; every recursion of the
  model is structural over a list. The progress argument (C21) is a weight of the
  requests in flight (a sent GET 2, an answered one 1, a sent mutation 4, an answered
  one 3) that every server or browser step lowers, because a delivered mutation starts
  at most one GET and a delivered GET none. The in-order reliable network of C22 is
  \<open>settle n\<close>, which acts on the first request in flight at most \<open>n\<close> times; fuel
  \<open>net_weight\<close> is enough for every state (\<open>settle_drains\<close>), so C22 is stated
  with that fuel and its result is \<open>Some\<close>.

  \<^medskip>
  \<^bold>\<open>Plan and what is not modelled yet.\<close> Next: the heap model of the whole
  application (the manager's posts and the list's buffer sharing section objects, so
  that C25 is stated against the rendered list), a refinement of \<open>app_step\<close> to an
  abstract store (posts on the server, the list as a possibly stale snapshot). Not
  modelled: styling (CSS, which may hide the collapsed panels' Delete buttons), the HTTP
  transport (axios is the rejection/response pair), React's batching beyond one event
  at a time, and the server's own code (not in the repository).
\<close>

end
